theory Spec2Isabelle
  imports Main "HOL-Library.AList" "HOL-Library.Sublist" "HOL-Library.Char_ord" "HOL-Library.List_Lexorder"
begin

section \<open>Overview\<close>

text \<open>
  A model of the coding agent of \<^verbatim>\<open>main.py\<close>: the three file tools
  (\<^verbatim>\<open>_read_file\<close>, \<^verbatim>\<open>_list_files\<close>, \<^verbatim>\<open>_edit_file\<close>), the executor that dispatches on
  the name of a tool (\<^verbatim>\<open>_execute_tool\<close>), and the loop of \<^verbatim>\<open>chat\<close>, which sends the
  conversation to the model service, runs the function calls of the response and
  sends their outputs back, until a response has no function call. The file system,
  the model service and \<^verbatim>\<open>json.loads\<close> are outside the repository: the file system
  is modelled as a tree of files and directories, the service and the decoder are
  parameters. The calls of \<^verbatim>\<open>logging\<close> are left out, and a response is taken to have
  the interface that the code uses (\<^verbatim>\<open>output\<close>, \<^verbatim>\<open>to_dict\<close>).
\<close>

section \<open>Python values and exceptions\<close>

text \<open>
  The agent of \<^verbatim>\<open>main.py\<close> handles text, \<^verbatim>\<open>None\<close> and exceptions. A value that
  Python allows to be a \<^verbatim>\<open>str\<close> or \<^verbatim>\<open>None\<close> (the declared tool schemas give
  \<^verbatim>\<open>path\<close> of \<^verbatim>\<open>list_files\<close> and \<^verbatim>\<open>old_text\<close> of \<^verbatim>\<open>edit_file\<close> the type
  \<^verbatim>\<open>["string", "null"]\<close>) is a \<open>string option\<close>. Exceptions are values; the text that
  \<^verbatim>\<open>str(e)\<close> gives for one is CPython's and not the repository's, so every function that
  formats an exception takes the rendering \<open>str_of\<close> as a parameter.
\<close>

datatype errno = ENOENT | ENOTDIR | EISDIR | EEXIST

datatype exn =
    OSError errno string
  | ValueError string
  | TypeError string
  | KeyError string
  | JSONDecodeError string
  | APIError string

type_synonym pystr = "string option"

fun is_FileNotFoundError :: "exn \<Rightarrow> bool" where
  "is_FileNotFoundError (OSError ENOENT p) = True"
| "is_FileNotFoundError e = False"

fun is_FileExistsError :: "exn \<Rightarrow> bool" where
  "is_FileExistsError (OSError EEXIST p) = True"
| "is_FileExistsError e = False"

text \<open>An f-string field \<^verbatim>\<open>{x}\<close>: the text itself, or \<^verbatim>\<open>None\<close> spelled out.\<close>

fun fmt :: "pystr \<Rightarrow> string" where
  "fmt None = ''None''"
| "fmt (Some s) = s"

text \<open>Truthiness of a \<^verbatim>\<open>str\<close> or \<^verbatim>\<open>None\<close>: false for \<^verbatim>\<open>None\<close> and for the empty string.\<close>

fun truthy :: "pystr \<Rightarrow> bool" where
  "truthy None = False"
| "truthy (Some s) = (s \<noteq> [])"

section \<open>String operations\<close>

abbreviation LF :: char where "LF \<equiv> CHR 0x0A"
abbreviation CR :: char where "CR \<equiv> CHR 0x0D"
abbreviation SLASH :: char where "SLASH \<equiv> CHR ''/''"

text \<open>\<^verbatim>\<open>old in content\<close>: \<open>old\<close> occurs in \<open>content\<close> as a contiguous substring.\<close>

fun py_in :: "string \<Rightarrow> string \<Rightarrow> bool" where
  "py_in old [] = (old = [])"
| "py_in old (c # cs) = (prefix old (c # cs) \<or> py_in old cs)"

text \<open>
  \<^verbatim>\<open>content.replace(old, new)\<close>: every occurrence of \<open>old\<close>, left to right and without
  overlap. For an empty \<open>old\<close> Python puts \<open>new\<close> before every character and at the end.
\<close>

function str_replace :: "string \<Rightarrow> string \<Rightarrow> string \<Rightarrow> string" where
  "str_replace old new [] = (if old = [] then new else [])"
| "str_replace old new (c # cs) =
     (if old = [] then new @ c # str_replace old new cs
      else if prefix old (c # cs) then new @ str_replace old new (drop (length old) (c # cs))
      else c # str_replace old new cs)"
  by pat_completeness auto
termination
  by (relation "measure (\<lambda>(old, new, s). length s)") (auto simp: neq_Nil_conv)

text \<open>\<^verbatim>\<open>"\n".join(items)\<close>.\<close>

fun join_nl :: "string list \<Rightarrow> string" where
  "join_nl [] = []"
| "join_nl [x] = x"
| "join_nl (x # y # ys) = x @ LF # join_nl (y # ys)"

text \<open>
  What a text-mode read (\<^verbatim>\<open>open(path, "r")\<close>, \<^verbatim>\<open>newline=None\<close>) returns for stored
  text: universal newlines, every \<^verbatim>\<open>\r\n\<close> and every lone \<^verbatim>\<open>\r\<close> becomes \<^verbatim>\<open>\n\<close>.
\<close>

fun universal_newlines :: "string \<Rightarrow> string" where
  "universal_newlines [] = []"
| "universal_newlines [c] = (if c = CR then [LF] else [c])"
| "universal_newlines (c # d # cs) =
     (if c = CR \<and> d = LF then LF # universal_newlines cs
      else if c = CR then LF # universal_newlines (d # cs)
      else c # universal_newlines (d # cs))"

section \<open>POSIX paths\<close>

text \<open>
  \<^verbatim>\<open>posixpath.split\<close>: the cut is after the last slash; trailing slashes of the head are
  stripped unless the head is slashes only. \<^verbatim>\<open>posixpath.dirname\<close> is the head.
\<close>

definition rstrip_slash :: "string \<Rightarrow> string" where
  "rstrip_slash s = rev (dropWhile (\<lambda>c. c = SLASH) (rev s))"

definition path_split :: "string \<Rightarrow> string \<times> string" where
  "path_split p =
     (let i = length p - length (takeWhile (\<lambda>c. c \<noteq> SLASH) (rev p));
          head = take i p;
          tail = drop i p
      in (if head \<noteq> [] \<and> head \<noteq> replicate (length head) SLASH then rstrip_slash head else head,
          tail))"

definition path_dirname :: "string \<Rightarrow> string" where
  "path_dirname p = fst (path_split p)"

text \<open>\<^verbatim>\<open>posixpath.join(a, b)\<close> for two components.\<close>

definition path_join :: "string \<Rightarrow> string \<Rightarrow> string" where
  "path_join a b =
     (if b \<noteq> [] \<and> hd b = SLASH then b
      else if a = [] \<or> last a = SLASH then a @ b
      else a @ SLASH # b)"

text \<open>The components of a path: \<^verbatim>\<open>p.split("/")\<close>.\<close>

fun split_slash :: "string \<Rightarrow> string list" where
  "split_slash [] = [[]]"
| "split_slash (c # cs) =
     (if c = SLASH then [] # split_slash cs
      else (case split_slash cs of [] \<Rightarrow> [[c]] | w # ws \<Rightarrow> (c # w) # ws))"

section \<open>The file system\<close>

text \<open>
  The tools of the agent reach the file system through \<^verbatim>\<open>open\<close>, \<^verbatim>\<open>os.path.exists\<close>,
  \<^verbatim>\<open>os.path.isdir\<close>, \<^verbatim>\<open>os.path.dirname\<close>, \<^verbatim>\<open>os.path.join\<close>, \<^verbatim>\<open>os.listdir\<close>
  and \<^verbatim>\<open>os.makedirs\<close>. The model is a POSIX tree without symbolic links and without
  permissions: every node is a regular file holding text or a directory, found under
  the list of its names from the root; the root is a directory. A path is resolved
  component by component, from the root or from the working directory, and every
  component that is stepped through has to be a directory. Files hold text: encoding
  to UTF-8 and back is taken to be the identity, and \<^verbatim>\<open>os.linesep\<close> is \<^verbatim>\<open>\n\<close>.
\<close>

datatype node = File string | Dir

record filesystem =
  entries :: "(string list \<times> node) list"
  cwd :: "string list"

definition node_at :: "filesystem \<Rightarrow> string list \<Rightarrow> node option" where
  "node_at fs l = (if l = [] then Some Dir else map_of (entries fs) l)"

fun walk :: "filesystem \<Rightarrow> string \<Rightarrow> string list \<Rightarrow> string list \<Rightarrow> exn + string list" where
  "walk fs p cur [] = Inr cur"
| "walk fs p cur (c # cs) =
     (case node_at fs cur of
        None \<Rightarrow> Inl (OSError ENOENT p)
      | Some (File t) \<Rightarrow> Inl (OSError ENOTDIR p)
      | Some Dir \<Rightarrow>
          walk fs p
            (if c = [] \<or> c = ''.'' then cur else if c = ''..'' then butlast cur else cur @ [c])
            cs)"

definition resolve :: "filesystem \<Rightarrow> string \<Rightarrow> exn + string list" where
  "resolve fs p =
     (if CHR 0x00 \<in> set p then Inl (ValueError ''embedded null byte'')
      else if p = [] then Inl (OSError ENOENT p)
      else walk fs p (if hd p = SLASH then [] else cwd fs) (split_slash p))"

definition stat :: "filesystem \<Rightarrow> string \<Rightarrow> exn + node" where
  "stat fs p =
     (case resolve fs p of
        Inl e \<Rightarrow> Inl e
      | Inr l \<Rightarrow> (case node_at fs l of None \<Rightarrow> Inl (OSError ENOENT p) | Some n \<Rightarrow> Inr n))"

text \<open>\<^verbatim>\<open>os.path.exists\<close> and \<^verbatim>\<open>os.path.isdir\<close> answer \<^verbatim>\<open>False\<close> where \<^verbatim>\<open>os.stat\<close> fails.\<close>

definition path_exists :: "filesystem \<Rightarrow> string \<Rightarrow> bool" where
  "path_exists fs p = (case stat fs p of Inl e \<Rightarrow> False | Inr n \<Rightarrow> True)"

definition path_isdir :: "filesystem \<Rightarrow> string \<Rightarrow> bool" where
  "path_isdir fs p = (case stat fs p of Inl e \<Rightarrow> False | Inr n \<Rightarrow> n = Dir)"

text \<open>\<^verbatim>\<open>with open(path, "r", encoding="utf-8") as f: content = f.read()\<close>.\<close>

definition read_text :: "filesystem \<Rightarrow> string \<Rightarrow> exn + string" where
  "read_text fs p =
     (case stat fs p of
        Inl e \<Rightarrow> Inl e
      | Inr Dir \<Rightarrow> Inl (OSError EISDIR p)
      | Inr (File t) \<Rightarrow> Inr (universal_newlines t))"

text \<open>
  \<^verbatim>\<open>with open(path, "w", encoding="utf-8") as f: f.write(text)\<close>: the file is created
  or truncated, then holds \<open>text\<close>.
\<close>

definition write_text :: "filesystem \<Rightarrow> string \<Rightarrow> string \<Rightarrow> exn + filesystem" where
  "write_text fs p text =
     (case resolve fs p of
        Inl e \<Rightarrow> Inl e
      | Inr l \<Rightarrow>
          (case node_at fs l of
             Some Dir \<Rightarrow> Inl (OSError EISDIR p)
           | _ \<Rightarrow>
               if node_at fs (butlast l) = Some Dir
               then Inr (fs\<lparr>entries := AList.update l (File text) (entries fs)\<rparr>)
               else Inl (OSError ENOENT p)))"

definition os_listdir :: "filesystem \<Rightarrow> string \<Rightarrow> exn + string list" where
  "os_listdir fs p =
     (case resolve fs p of
        Inl e \<Rightarrow> Inl e
      | Inr l \<Rightarrow>
          (case node_at fs l of
             None \<Rightarrow> Inl (OSError ENOENT p)
           | Some (File t) \<Rightarrow> Inl (OSError ENOTDIR p)
           | Some Dir \<Rightarrow>
               Inr (remdups (map last
                 (filter (\<lambda>k. k \<noteq> [] \<and> butlast k = l) (map fst (entries fs)))))))"

definition os_mkdir :: "filesystem \<Rightarrow> string \<Rightarrow> exn + filesystem" where
  "os_mkdir fs p =
     (case resolve fs p of
        Inl e \<Rightarrow> Inl e
      | Inr l \<Rightarrow>
          (case node_at fs l of
             Some n \<Rightarrow> Inl (OSError EEXIST p)
           | None \<Rightarrow>
               if node_at fs (butlast l) = Some Dir
               then Inr (fs\<lparr>entries := AList.update l Dir (entries fs)\<rparr>)
               else Inl (OSError ENOENT p)))"

text \<open>
  \<^verbatim>\<open>os.makedirs(name, exist_ok=True)\<close>, after CPython's \<^verbatim>\<open>os.py\<close>: the head of the
  name is made first when it is missing (a \<^verbatim>\<open>FileExistsError\<close> of that call is passed
  over), a name that ends in \<^verbatim>\<open>.\<close> is then done, and the \<^verbatim>\<open>OSError\<close> of the final
  \<^verbatim>\<open>mkdir\<close> is dropped when the name is a directory. The result is the exception
  raised, if any, and the file system as the call leaves it.
\<close>

definition makedirs_parts :: "string \<Rightarrow> string \<times> string" where
  "makedirs_parts name =
     (let (head, tail) = path_split name
      in if tail = [] then path_split head else (head, tail))"

definition mkdir_exist_ok :: "filesystem \<Rightarrow> string \<Rightarrow> exn option \<times> filesystem" where
  "mkdir_exist_ok fs name =
     (case os_mkdir fs name of
        Inr fs' \<Rightarrow> (None, fs')
      | Inl (OSError n p) \<Rightarrow> if \<not> path_isdir fs name then (Some (OSError n p), fs) else (None, fs)
      | Inl e \<Rightarrow> (Some e, fs))"

lemma path_split_length: "length (fst (path_split p)) + length (snd (path_split p)) \<le> length p"
proof -
  have "length (rstrip_slash s) \<le> length s" for s
    unfolding rstrip_slash_def using length_dropWhile_le [of "\<lambda>c. c = SLASH" "rev s"] by simp
  from this [of "take (length p - length (takeWhile (\<lambda>c. c \<noteq> SLASH) (rev p))) p"]
  show ?thesis
    by (auto simp: path_split_def Let_def)
qed

lemma makedirs_parts_length:
  "snd (makedirs_parts name) \<noteq> [] \<Longrightarrow> length (fst (makedirs_parts name)) < length name"
proof -
  assume a: "snd (makedirs_parts name) \<noteq> []"
  obtain h t where ht: "path_split name = (h, t)" by (cases "path_split name")
  have l1: "length h + length t \<le> length name"
    using path_split_length [of name] ht by simp
  show ?thesis
  proof (cases "t = []")
    case True
    then have "makedirs_parts name = path_split h"
      by (simp add: makedirs_parts_def ht)
    with a path_split_length [of h] l1 show ?thesis by (cases "snd (path_split h)") auto
  next
    case False
    then have "makedirs_parts name = (h, t)"
      by (simp add: makedirs_parts_def ht)
    with False l1 show ?thesis by (cases t) auto
  qed
qed

function os_makedirs :: "filesystem \<Rightarrow> string \<Rightarrow> exn option \<times> filesystem" where
  "os_makedirs fs name =
     (if fst (makedirs_parts name) \<noteq> [] \<and> snd (makedirs_parts name) \<noteq> []
         \<and> \<not> path_exists fs (fst (makedirs_parts name))
      then
        (case os_makedirs fs (fst (makedirs_parts name)) of
           (Some e, fs1) \<Rightarrow>
             if is_FileExistsError e
             then (if snd (makedirs_parts name) = ''.'' then (None, fs1)
                   else mkdir_exist_ok fs1 name)
             else (Some e, fs1)
         | (None, fs1) \<Rightarrow>
             if snd (makedirs_parts name) = ''.'' then (None, fs1)
             else mkdir_exist_ok fs1 name)
      else mkdir_exist_ok fs name)"
  by pat_completeness auto
termination
  by (relation "measure (\<lambda>(fs, name). length name)") (auto simp: makedirs_parts_length)

section \<open>The tools\<close>

text \<open>
  The three tools of \<^verbatim>\<open>AIAgent\<close>. Each takes the rendering of exceptions, the file
  system and its arguments as the executor hands them over: a \<^verbatim>\<open>str\<close> or
  \<^verbatim>\<open>None\<close>. A path that is \<^verbatim>\<open>None\<close> makes \<^verbatim>\<open>open\<close> and \<^verbatim>\<open>os.path.exists\<close> raise a
  \<^verbatim>\<open>TypeError\<close>, which the tool's own handler turns into text.
\<close>

text \<open>\<^verbatim>\<open>AIAgent._read_file\<close>.\<close>

definition read_file :: "(exn \<Rightarrow> string) \<Rightarrow> filesystem \<Rightarrow> pystr \<Rightarrow> string" where
  "read_file str_of fs path =
     (case (case path of
              None \<Rightarrow> Inl (TypeError ''expected str, bytes or os.PathLike object, not NoneType'')
            | Some p \<Rightarrow> read_text fs p) of
        Inr content \<Rightarrow> ''File contents of '' @ fmt path @ '':'' @ LF # content
      | Inl e \<Rightarrow>
          if is_FileNotFoundError e then ''File not found: '' @ fmt path
          else ''Error reading file: '' @ str_of e)"

text \<open>\<^verbatim>\<open>AIAgent._list_files\<close>.\<close>

definition list_item :: "filesystem \<Rightarrow> string \<Rightarrow> string \<Rightarrow> string" where
  "list_item fs p item =
     (if path_isdir fs (path_join p item) then ''[DIR]  '' @ item @ ''/''
      else ''[FILE] '' @ item)"

definition list_files :: "(exn \<Rightarrow> string) \<Rightarrow> filesystem \<Rightarrow> pystr \<Rightarrow> string" where
  "list_files str_of fs path =
     (case path of
        None \<Rightarrow>
          ''Error listing files: '' @ str_of (TypeError
            ''stat: path should be string, bytes, os.PathLike or integer, not NoneType'')
      | Some p \<Rightarrow>
          if \<not> path_exists fs p then ''Path not found: '' @ p
          else
            (case os_listdir fs p of
               Inl e \<Rightarrow> ''Error listing files: '' @ str_of e
             | Inr names \<Rightarrow>
                 (let items = map (list_item fs p) (sort names)
                  in if items = [] then ''Empty directory: '' @ p
                     else ''Contents of '' @ p @ '':'' @ LF # join_nl items)))"

text \<open>
  \<^verbatim>\<open>AIAgent._edit_file\<close>. The result is the message and the file system as the call
  leaves it. In the branch that creates the file, a \<open>new_text\<close> that is \<^verbatim>\<open>None\<close>
  fails in \<^verbatim>\<open>f.write\<close>, after \<^verbatim>\<open>open\<close> has created or emptied the file.
\<close>

definition edit_file ::
  "(exn \<Rightarrow> string) \<Rightarrow> filesystem \<Rightarrow> pystr \<Rightarrow> pystr \<Rightarrow> pystr \<Rightarrow> string \<times> filesystem" where
  "edit_file str_of fs path old_text new_text =
     (case path of
        None \<Rightarrow>
          (''Error editing file: '' @ str_of (TypeError
             ''stat: path should be string, bytes, os.PathLike or integer, not NoneType''), fs)
      | Some p \<Rightarrow>
          if path_exists fs p \<and> truthy old_text then
            (case read_text fs p of
               Inl e \<Rightarrow> (''Error editing file: '' @ str_of e, fs)
             | Inr content \<Rightarrow>
                 if \<not> py_in (the old_text) content
                 then (''Text not found in file: '' @ the old_text, fs)
                 else
                   (case new_text of
                      None \<Rightarrow>
                        (''Error editing file: '' @ str_of (TypeError
                           ''replace() argument 2 must be str, not None''), fs)
                    | Some new \<Rightarrow>
                        (case write_text fs p (str_replace (the old_text) new content) of
                           Inl e \<Rightarrow> (''Error editing file: '' @ str_of e, fs)
                         | Inr fs' \<Rightarrow> (''Successfully edited '' @ p, fs'))))
          else
            (case (if path_dirname p \<noteq> [] then os_makedirs fs (path_dirname p) else (None, fs)) of
               (Some e, fs1) \<Rightarrow> (''Error editing file: '' @ str_of e, fs1)
             | (None, fs1) \<Rightarrow>
                 (case write_text fs1 p (case new_text of None \<Rightarrow> [] | Some new \<Rightarrow> new) of
                    Inl e \<Rightarrow> (''Error editing file: '' @ str_of e, fs1)
                  | Inr fs2 \<Rightarrow>
                      (case new_text of
                         None \<Rightarrow>
                           (''Error editing file: '' @ str_of (TypeError
                              ''write() argument must be str, not None''), fs2)
                       | Some new \<Rightarrow> (''Successfully created '' @ p, fs2)))))"

section \<open>The tool executor\<close>

text \<open>
  \<^verbatim>\<open>AIAgent._execute_tool\<close>. The tool input is the dictionary that \<^verbatim>\<open>json.loads\<close> made
  of the call's arguments: keys with a \<^verbatim>\<open>str\<close> or \<^verbatim>\<open>None\<close> each, kept as an
  association list. \<^verbatim>\<open>tool_input["path"]\<close> raises \<^verbatim>\<open>KeyError\<close> for a missing key,
  \<^verbatim>\<open>tool_input.get("old_text", "")\<close> gives the empty string for one; the arguments of
  \<^verbatim>\<open>_edit_file\<close> are evaluated from left to right. The handler of the executor turns
  the exception into text.
\<close>

type_synonym tool_input = "(string \<times> pystr) list"

definition subscript :: "tool_input \<Rightarrow> string \<Rightarrow> exn + pystr" where
  "subscript d k = (case map_of d k of None \<Rightarrow> Inl (KeyError k) | Some v \<Rightarrow> Inr v)"

definition get_default :: "tool_input \<Rightarrow> string \<Rightarrow> pystr \<Rightarrow> pystr" where
  "get_default d k dflt = (case map_of d k of None \<Rightarrow> dflt | Some v \<Rightarrow> v)"

definition execute_tool ::
  "(exn \<Rightarrow> string) \<Rightarrow> filesystem \<Rightarrow> string \<Rightarrow> tool_input \<Rightarrow> string \<times> filesystem" where
  "execute_tool str_of fs tool_name tool_input =
     (if tool_name = ''read_file'' then
        (case subscript tool_input ''path'' of
           Inl e \<Rightarrow> (''Error executing '' @ tool_name @ '': '' @ str_of e, fs)
         | Inr path \<Rightarrow> (read_file str_of fs path, fs))
      else if tool_name = ''list_files'' then
        (case subscript tool_input ''path'' of
           Inl e \<Rightarrow> (''Error executing '' @ tool_name @ '': '' @ str_of e, fs)
         | Inr path \<Rightarrow> (list_files str_of fs (if truthy path then path else Some ''.''), fs))
      else if tool_name = ''edit_file'' then
        (case subscript tool_input ''path'' of
           Inl e \<Rightarrow> (''Error executing '' @ tool_name @ '': '' @ str_of e, fs)
         | Inr path \<Rightarrow>
             (case subscript tool_input ''new_text'' of
                Inl e \<Rightarrow> (''Error executing '' @ tool_name @ '': '' @ str_of e, fs)
              | Inr new_text \<Rightarrow>
                  edit_file str_of fs path (get_default tool_input ''old_text'' (Some [])) new_text))
      else (''Unknown tool: '' @ tool_name, fs))"

section \<open>The conversation and the model service\<close>

text \<open>
  \<^verbatim>\<open>response.output\<close> is a list of items; the agent looks at the type of an item and,
  for a \<^verbatim>\<open>function_call\<close>, at its \<^verbatim>\<open>call_id\<close>, \<^verbatim>\<open>name\<close> and \<^verbatim>\<open>arguments\<close> (a
  \<^verbatim>\<open>str\<close> or \<^verbatim>\<open>None\<close>). \<^verbatim>\<open>self.input\<close> holds the user's messages, the output items
  of the service (\<^verbatim>\<open>item.to_dict()\<close>) and the outputs of function calls.
  A response may lack the attribute \<^verbatim>\<open>output_text\<close> (\<^verbatim>\<open>hasattr\<close> is asked).
\<close>

datatype item =
    FunctionCall string string pystr
  | Message string
  | OtherItem string

datatype turn =
    UserMessage string
  | OutputItem item
  | FunctionCallOutput string string

record response =
  output_items :: "item list"
  output_text :: "string option"

text \<open>
  \<^verbatim>\<open>[item for item in response.output if item.type == "function_call"]\<close>, each call
  as its \<^verbatim>\<open>call_id\<close>, \<^verbatim>\<open>name\<close> and \<^verbatim>\<open>arguments\<close>.
\<close>

fun function_calls :: "item list \<Rightarrow> (string \<times> string \<times> pystr) list" where
  "function_calls [] = []"
| "function_calls (FunctionCall cid nm args # items) = (cid, nm, args) # function_calls items"
| "function_calls (other # items) = function_calls items"

text \<open>
  What the agent does not own: the model service
  (\<^verbatim>\<open>self.client.responses.create\<close>, with a state of its own, which answers a request
  with a response or raises), \<^verbatim>\<open>json.loads\<close>, and the text of an exception.
  Of the request, only \<^verbatim>\<open>self.input\<close> changes between two calls; the other parameters
  are constants of the agent.
\<close>

record 's env =
  create :: "'s \<Rightarrow> turn list \<Rightarrow> (exn + response) \<times> 's"
  loads :: "string \<Rightarrow> exn + tool_input"
  exn_str :: "exn \<Rightarrow> string"

text \<open>
  The state of a run: \<^verbatim>\<open>self.input\<close>, the file system, the state of the service, and
  a trace that the code does not have, which records every request with what came
  back and every execution of a tool with its result.
\<close>

datatype event =
    Request "turn list" "exn + response"
  | ToolCall string tool_input string

record 's agent =
  input :: "turn list"
  files :: filesystem
  service :: 's
  trace :: "event list"

text \<open>
  The loop over \<^verbatim>\<open>function_calls\<close> in \<^verbatim>\<open>chat\<close>: \<^verbatim>\<open>json.loads(function_call.arguments
  or "{}")\<close>, the executor, and one more entry of \<^verbatim>\<open>function_results\<close>. An exception of
  \<^verbatim>\<open>json.loads\<close> leaves the loop; the tools run before it have run.
\<close>

fun run_tools ::
  "'s env \<Rightarrow> (string \<times> string \<times> pystr) list \<Rightarrow> turn list \<Rightarrow> 's agent
     \<Rightarrow> (exn + turn list) \<times> 's agent" where
  "run_tools env [] function_results st = (Inr function_results, st)"
| "run_tools env ((cid, nm, args) # calls) function_results st =
     (case loads env (if truthy args then the args else ''{}'') of
        Inl e \<Rightarrow> (Inl e, st)
      | Inr tool_input \<Rightarrow>
          (case execute_tool (exn_str env) (files st) nm tool_input of
             (result, fs') \<Rightarrow>
               run_tools env calls (function_results @ [FunctionCallOutput cid result])
                 (st\<lparr>files := fs', trace := trace st @ [ToolCall nm tool_input result]\<rparr>)))"

text \<open>
  The \<^verbatim>\<open>while True\<close> of \<^verbatim>\<open>chat\<close>, with fuel: one unit for each request to the service.
  The result is \<open>None\<close> when the fuel is used up before the loop returns. Every
  exception raised inside the \<^verbatim>\<open>try\<close> ends the loop with \<^verbatim>\<open>f"Error: {str(e)}"\<close>.
\<close>

fun chat_loop :: "'s env \<Rightarrow> nat \<Rightarrow> 's agent \<Rightarrow> string option \<times> 's agent" where
  "chat_loop env 0 st = (None, st)"
| "chat_loop env (Suc fuel) st =
     (case create env (service st) (input st) of
        (Inl e, s') \<Rightarrow>
          (Some (''Error: '' @ exn_str env e),
           st\<lparr>service := s', trace := trace st @ [Request (input st) (Inl e)]\<rparr>)
      | (Inr resp, s') \<Rightarrow>
          (let st1 = st\<lparr>input := input st @ map OutputItem (output_items resp),
                         service := s',
                         trace := trace st @ [Request (input st) (Inr resp)]\<rparr>
           in if function_calls (output_items resp) = []
              then (Some (case output_text resp of None \<Rightarrow> [] | Some t \<Rightarrow> t), st1)
              else
                (case run_tools env (function_calls (output_items resp)) [] st1 of
                   (Inl e, st2) \<Rightarrow> (Some (''Error: '' @ exn_str env e), st2)
                 | (Inr function_results, st2) \<Rightarrow>
                     chat_loop env fuel (st2\<lparr>input := input st2 @ function_results\<rparr>))))"

text \<open>\<^verbatim>\<open>AIAgent.chat\<close>: the user's message is appended, then the loop runs.\<close>

definition chat :: "'s env \<Rightarrow> nat \<Rightarrow> 's agent \<Rightarrow> string \<Rightarrow> string option \<times> 's agent" where
  "chat env fuel st user_input = chat_loop env fuel (st\<lparr>input := input st @ [UserMessage user_input]\<rparr>)"

text \<open>The requests of a trace, in order: the turn lists that were sent.\<close>

fun requests :: "event list \<Rightarrow> turn list list" where
  "requests [] = []"
| "requests (Request inp r # evs) = inp # requests evs"
| "requests (ToolCall nm ti res # evs) = requests evs"

fun tool_calls :: "event list \<Rightarrow> (string \<times> tool_input \<times> string) list" where
  "tool_calls [] = []"
| "tool_calls (Request inp r # evs) = tool_calls evs"
| "tool_calls (ToolCall nm ti res # evs) = (nm, ti, res) # tool_calls evs"

text \<open>
  Whether \<^verbatim>\<open>json.loads(function_call.arguments or "{}")\<close> returns for the arguments of
  a call, rather than raising.
\<close>

definition decodes :: "'s env \<Rightarrow> pystr \<Rightarrow> bool" where
  "decodes env args =
     (case loads env (if truthy args then the args else ''{}'') of
        Inl e \<Rightarrow> False
      | Inr tool_input \<Rightarrow> True)"

section \<open>An example environment\<close>

text \<open>
  A working directory \<^verbatim>\<open>/work\<close> that holds the file \<^verbatim>\<open>a.txt\<close> and the directory
  \<^verbatim>\<open>b\<close>, and a rendering of exceptions in the manner of CPython, for the examples
  below.
\<close>

definition fs_ab :: filesystem where
  "fs_ab =
     \<lparr>entries = [([''work''], Dir), ([''work'', ''b''], Dir), ([''work'', ''a.txt''], File ''hello'')],
      cwd = [''work'']\<rparr>"

fun errno_text :: "errno \<Rightarrow> string" where
  "errno_text ENOENT = ''[Errno 2] No such file or directory''"
| "errno_text ENOTDIR = ''[Errno 20] Not a directory''"
| "errno_text EISDIR = ''[Errno 21] Is a directory''"
| "errno_text EEXIST = ''[Errno 17] File exists''"

fun demo_str :: "exn \<Rightarrow> string" where
  "demo_str (OSError n p) = errno_text n @ '': '' @ CHR 0x27 # p @ [CHR 0x27]"
| "demo_str (KeyError k) = CHR 0x27 # k @ [CHR 0x27]"
| "demo_str (ValueError m) = m"
| "demo_str (TypeError m) = m"
| "demo_str (JSONDecodeError m) = m"
| "demo_str (APIError m) = m"

text \<open>
  The same working directory with two files that hold carriage returns:
  \<^verbatim>\<open>crlf.txt\<close> with the content \<^verbatim>\<open>a\r\nb\<close> and \<^verbatim>\<open>cr.txt\<close> with \<^verbatim>\<open>a\rb\<close>.
\<close>

definition fs_cr :: filesystem where
  "fs_cr =
     \<lparr>entries = [([''work''], Dir),
                 ([''work'', ''crlf.txt''], File [CHR ''a'', CR, LF, CHR ''b'']),
                 ([''work'', ''cr.txt''], File [CHR ''a'', CR, CHR ''b''])],
      cwd = [''work'']\<rparr>"

text \<open>
  A scripted model service: its state is the list of the answers still to give, each a
  response or an exception; a request takes the first, and a service whose script is
  used up raises.
\<close>

definition scripted ::
  "(exn + response) list \<Rightarrow> turn list \<Rightarrow> (exn + response) \<times> (exn + response) list" where
  "scripted script inp =
     (case script of
        [] \<Rightarrow> (Inl (APIError ''the script has no more responses''), [])
      | r # rs \<Rightarrow> (r, rs))"

text \<open>
  A decoder for the arguments that the declared tool schemas allow: one JSON object
  whose values are strings or \<^verbatim>\<open>null\<close>, with the escapes of one character. For
  such text it gives the dictionary that \<^verbatim>\<open>json.loads\<close> gives (a repeated key keeps
  its last value), and it rejects text that is no JSON. Other JSON (numbers, arrays,
  nested objects, \<^verbatim>\<open>\u\<close> escapes) is outside this fragment and is not used below. Of
  the messages of \<^verbatim>\<open>json.loads\<close> it gives the one for text whose first character
  starts no JSON value.
\<close>

abbreviation DQ :: char where "DQ \<equiv> CHR 0x22"
abbreviation BACKSLASH :: char where "BACKSLASH \<equiv> CHR 0x5C"

definition skip_ws :: "string \<Rightarrow> string" where
  "skip_ws = dropWhile (\<lambda>c. c = CHR '' '' \<or> c = CHR 0x09 \<or> c = LF \<or> c = CR)"

definition unescape :: "char \<Rightarrow> char option" where
  "unescape c =
     (if c = DQ \<or> c = BACKSLASH \<or> c = SLASH then Some c
      else if c = CHR ''b'' then Some (CHR 0x08)
      else if c = CHR ''f'' then Some (CHR 0x0C)
      else if c = CHR ''n'' then Some LF
      else if c = CHR ''r'' then Some CR
      else if c = CHR ''t'' then Some (CHR 0x09)
      else None)"

fun scan_string :: "string \<Rightarrow> (string \<times> string) option" where
  "scan_string [] = None"
| "scan_string [c] = (if c = DQ then Some ([], []) else None)"
| "scan_string (c # d # cs) =
     (if c = DQ then Some ([], d # cs)
      else if c = BACKSLASH then
        (case unescape d of
           None \<Rightarrow> None
         | Some ch \<Rightarrow> map_option (\<lambda>(t, r). (ch # t, r)) (scan_string cs))
      else if of_char c < (32 :: nat) then None
      else map_option (\<lambda>(t, r). (c # t, r)) (scan_string (d # cs)))"

definition scan_value :: "string \<Rightarrow> (pystr \<times> string) option" where
  "scan_value s =
     (case s of
        [] \<Rightarrow> None
      | c # cs \<Rightarrow>
          if c = DQ then map_option (\<lambda>(t, r). (Some t, r)) (scan_string cs)
          else if take 4 s = ''null'' then Some (None, drop 4 s)
          else None)"

fun scan_members :: "nat \<Rightarrow> string \<Rightarrow> tool_input \<Rightarrow> tool_input option" where
  "scan_members 0 s acc = None"
| "scan_members (Suc n) s acc =
     (case s of
        [] \<Rightarrow> None
      | c # cs \<Rightarrow>
          if c \<noteq> DQ then None
          else
            (case scan_string cs of
               None \<Rightarrow> None
             | Some (key, r1) \<Rightarrow>
                 (case skip_ws r1 of
                    [] \<Rightarrow> None
                  | d # r2 \<Rightarrow>
                      if d \<noteq> CHR '':'' then None
                      else
                        (case scan_value (skip_ws r2) of
                           None \<Rightarrow> None
                         | Some (v, r3) \<Rightarrow>
                             (case skip_ws r3 of
                                [] \<Rightarrow> None
                              | e # r4 \<Rightarrow>
                                  if e = CHR '','' then
                                    scan_members n (skip_ws r4) (AList.update key v acc)
                                  else if e = CHR ''}'' \<and> skip_ws r4 = [] then
                                    Some (AList.update key v acc)
                                  else None)))))"

definition loads_flat :: "string \<Rightarrow> exn + tool_input" where
  "loads_flat s =
     (case s of
        [] \<Rightarrow> Inl (JSONDecodeError ''Expecting value: line 1 column 1 (char 0)'')
      | c0 # s0 \<Rightarrow>
          if c0 \<notin> set (''{['' @ DQ # ''-0123456789tfnNI'' @ [CHR '' '', CHR 0x09, LF, CR])
          then Inl (JSONDecodeError ''Expecting value: line 1 column 1 (char 0)'')
          else
            (case skip_ws s of
               [] \<Rightarrow> Inl (JSONDecodeError ''malformed JSON'')
             | c # cs \<Rightarrow>
                 if c \<noteq> CHR ''{'' then Inl (JSONDecodeError ''malformed JSON'')
                 else
                   (case skip_ws cs of
                      [] \<Rightarrow> Inl (JSONDecodeError ''malformed JSON'')
                    | d # ds \<Rightarrow>
                        if d = CHR ''}'' then
                          (if skip_ws ds = [] then Inr [] else Inl (JSONDecodeError ''malformed JSON''))
                        else
                          (case scan_members (length s) (d # ds) [] of
                             None \<Rightarrow> Inl (JSONDecodeError ''malformed JSON'')
                           | Some m \<Rightarrow> Inr m))))"

definition demo_env :: "(exn + response) list env" where
  "demo_env = \<lparr>create = scripted, loads = loads_flat, exn_str = demo_str\<rparr>"

definition agent0 :: "(exn + response) list \<Rightarrow> (exn + response) list agent" where
  "agent0 script = \<lparr>input = [], files = fs_ab, service = script, trace = []\<rparr>"

text \<open>Responses for the examples: a final text, and a call of \<^verbatim>\<open>list_files\<close>.\<close>

definition resp_text :: response where
  "resp_text = \<lparr>output_items = [Message ''hi there''], output_text = Some ''hi there''\<rparr>"


definition resp_bad :: response where
  "resp_bad =
     \<lparr>output_items = [FunctionCall ''c1'' ''list_files'' (Some ''bad json'')],
      output_text = Some []\<rparr>"



text \<open>
  A response with two function calls, the second with arguments that are no JSON, and
  the state in which the run on it ends.
\<close>

definition resp_two :: response where
  "resp_two =
     \<lparr>output_items = [FunctionCall ''c1'' ''list_files'' (Some ''{\"path\": null}''),
                      FunctionCall ''c2'' ''read_file'' (Some ''bad json'')],
      output_text = Some []\<rparr>"

definition demo_final_two :: "(exn + response) list agent" where
  "demo_final_two =
     \<lparr>input = [UserMessage ''hello'',
               OutputItem (FunctionCall ''c1'' ''list_files'' (Some ''{\"path\": null}'')),
               OutputItem (FunctionCall ''c2'' ''read_file'' (Some ''bad json''))],
      files = fs_ab, service = [Inr resp_text],
      trace = [Request [UserMessage ''hello''] (Inr resp_two),
               ToolCall ''list_files'' [(''path'', None)]
                 (''Contents of .:'' @ LF # ''[FILE] a.txt'' @ LF # ''[DIR]  b/'')]\<rparr>"

section \<open>Properties of the tools\<close>

lemma py_in_sublist: "py_in old s = sublist old s"
  by (induction s) (auto simp: sublist_Cons_right)

lemma read_text_exists: "read_text fs p = Inr content \<Longrightarrow> path_exists fs p"
  by (cases "stat fs p") (simp_all add: read_text_def path_exists_def)

lemma node_at_root: "node_at fs [] = Some Dir"
  by (simp add: node_at_def)

lemma node_at_update:
  "l \<noteq> [] \<Longrightarrow>
   node_at (fs\<lparr>entries := AList.update l n (entries fs)\<rparr>) k = (if k = l then Some n else node_at fs k)"
  by (simp add: node_at_def update_conv')

text \<open>
  Writing a file does not change how a path is resolved: the components that a
  resolution steps through are directories, and the node written to is not one.
\<close>

lemma walk_update_file:
  assumes "node_at fs l \<noteq> Some Dir" and "walk fs p cur cs = Inr r"
  shows "walk (fs\<lparr>entries := AList.update l (File t) (entries fs)\<rparr>) p cur cs = Inr r"
  using assms(2)
proof (induction cs arbitrary: cur)
  case Nil
  then show ?case by simp
next
  case (Cons c cs)
  from assms(1) have l: "l \<noteq> []" using node_at_root [of fs] by auto
  from Cons.prems have d: "node_at fs cur = Some Dir"
    by (auto split: option.splits node.splits)
  with assms(1) have "cur \<noteq> l" by auto
  with d l have d': "node_at (fs\<lparr>entries := AList.update l (File t) (entries fs)\<rparr>) cur = Some Dir"
    by (simp add: node_at_update)
  from Cons.prems d d' Cons.IH show ?case by simp
qed

lemma write_then_read:
  assumes "write_text fs p t = Inr fs'"
  shows "read_text fs' p = Inr (universal_newlines t)"
proof -
  from assms obtain l where r: "resolve fs p = Inr l"
    by (auto simp: write_text_def split: sum.splits)
  from assms r have nd: "node_at fs l \<noteq> Some Dir"
    and fs': "fs' = fs\<lparr>entries := AList.update l (File t) (entries fs)\<rparr>"
    by (auto simp: write_text_def split: option.splits node.splits if_splits)
  from nd have l: "l \<noteq> []" using node_at_root [of fs] by auto
  from r have "resolve fs' p = Inr l"
    unfolding fs' resolve_def using walk_update_file [OF nd]
    by (auto split: if_splits)
  moreover have "node_at fs' l = Some (File t)"
    unfolding fs' using l by (simp add: node_at_update)
  ultimately show ?thesis
    by (simp add: read_text_def stat_def)
qed

text \<open>The two branches of \<open>edit_file\<close>, each under its condition.\<close>

lemma edit_file_replace_mode:
  "path_exists fs p \<Longrightarrow> truthy old_text \<Longrightarrow>
   edit_file str_of fs (Some p) old_text new_text =
     (case read_text fs p of
        Inl e \<Rightarrow> (''Error editing file: '' @ str_of e, fs)
      | Inr content \<Rightarrow>
          if \<not> py_in (the old_text) content
          then (''Text not found in file: '' @ the old_text, fs)
          else
            (case new_text of
               None \<Rightarrow>
                 (''Error editing file: '' @ str_of (TypeError
                    ''replace() argument 2 must be str, not None''), fs)
             | Some new \<Rightarrow>
                 (case write_text fs p (str_replace (the old_text) new content) of
                    Inl e \<Rightarrow> (''Error editing file: '' @ str_of e, fs)
                  | Inr fs' \<Rightarrow> (''Successfully edited '' @ p, fs'))))"
  by (simp add: edit_file_def)

lemma edit_file_create_mode:
  "\<not> (path_exists fs p \<and> truthy old_text) \<Longrightarrow>
   edit_file str_of fs (Some p) old_text new_text =
     (case (if path_dirname p \<noteq> [] then os_makedirs fs (path_dirname p) else (None, fs)) of
        (Some e, fs1) \<Rightarrow> (''Error editing file: '' @ str_of e, fs1)
      | (None, fs1) \<Rightarrow>
          (case write_text fs1 p (case new_text of None \<Rightarrow> [] | Some new \<Rightarrow> new) of
             Inl e \<Rightarrow> (''Error editing file: '' @ str_of e, fs1)
           | Inr fs2 \<Rightarrow>
               (case new_text of
                  None \<Rightarrow>
                    (''Error editing file: '' @ str_of (TypeError
                       ''write() argument must be str, not None''), fs2)
                | Some new \<Rightarrow> (''Successfully created '' @ p, fs2))))"
  unfolding edit_file_def by (simp only: option.case if_not_P if_False)

lemma edit_file_created:
  assumes "edit_file str_of fs (Some p) old_text (Some C) = (''Successfully created '' @ p, fs')"
  shows "\<exists>fs1. write_text fs1 p C = Inr fs'"
proof (cases "path_exists fs p \<and> truthy old_text")
  case True
  then have m: "path_exists fs p" "truthy old_text" by simp_all
  show ?thesis
  proof (cases "read_text fs p")
    case (Inl e)
    with assms show ?thesis by (simp add: edit_file_replace_mode [OF m])
  next
    case (Inr content)
    show ?thesis
    proof (cases "py_in (the old_text) content")
      case False
      with Inr assms show ?thesis by (simp add: edit_file_replace_mode [OF m])
    next
      case found: True
      with Inr assms show ?thesis
        by (cases "write_text fs p (str_replace (the old_text) C content)")
          (simp_all add: edit_file_replace_mode [OF m])
    qed
  qed
next
  case False
  note cm = edit_file_create_mode [OF False, of str_of "Some C"]
  obtain e1 fs1 where mk:
    "(if path_dirname p \<noteq> [] then os_makedirs fs (path_dirname p) else (None, fs)) = (e1, fs1)"
    by (cases "if path_dirname p \<noteq> [] then os_makedirs fs (path_dirname p) else (None, fs)")
  show ?thesis
  proof (cases e1)
    case (Some e)
    with mk assms show ?thesis unfolding cm by simp
  next
    case None
    with mk assms show ?thesis unfolding cm
      by (cases "write_text fs1 p C") auto
  qed
qed

lemma os_listdir_distinct: "os_listdir fs p = Inr names \<Longrightarrow> distinct names"
  by (auto simp: os_listdir_def split: sum.splits option.splits node.splits)

lemma os_listdir_exists: "os_listdir fs p = Inr names \<Longrightarrow> path_exists fs p"
  by (auto simp: os_listdir_def path_exists_def stat_def split: sum.splits option.splits node.splits)

lemma sort_two:
  fixes x y :: "'a::linorder"
  assumes "distinct names" and "set names = {x, y}" and "x < y"
  shows "sort names = [x, y]"
proof (rule sorted_distinct_set_unique)
  show "sorted (sort names)" by simp
  show "distinct (sort names)" using assms(1) by simp
  show "sorted [x, y]" using assms(3) by simp
  show "distinct [x, y]" using assms(3) by simp
  show "set (sort names) = set [x, y]" using assms(2) by simp
qed

lemma fs_ab_listing:
  "list_files demo_str fs_ab (Some ''.'') = ''Contents of .:'' @ LF # ''[FILE] a.txt'' @ LF # ''[DIR]  b/''"
  by (simp add: list_files_def fs_ab_def path_exists_def path_isdir_def stat_def resolve_def
      node_at_def os_listdir_def list_item_def path_join_def)

lemma universal_newlines_id: "CR \<notin> set s \<Longrightarrow> universal_newlines s = s"
  by (induction s rule: universal_newlines.induct) auto

text \<open>
  Claim C5, as amended. When \<open>edit_file\<close> creates the file at \<open>p\<close> with the content
  \<open>C\<close> (it answers \<^verbatim>\<open>Successfully created <p>\<close>), \<open>read_file\<close> of \<open>p\<close> afterwards
  returns the header line \<^verbatim>\<open>File contents of <p>:\<close> followed by \<open>C\<close> as a text-mode
  read gives it back: with every \<^verbatim>\<open>\r\n\<close> and lone \<^verbatim>\<open>\r\<close> as \<^verbatim>\<open>\n\<close>, and so by \<open>C\<close>
  itself when \<open>C\<close> has no carriage return.
\<close>

theorem edit_file_create_then_read:
  assumes "edit_file str_of fs (Some p) old_text (Some C) = (''Successfully created '' @ p, fs')"
  shows "read_file str_of' fs' (Some p) = ''File contents of '' @ p @ '':'' @ LF # universal_newlines C
       \<and> (CR \<notin> set C \<longrightarrow> read_file str_of' fs' (Some p) = ''File contents of '' @ p @ '':'' @ LF # C)"
proof -
  from assms obtain fs1 where "write_text fs1 p C = Inr fs'"
    using edit_file_created by blast
  then have "read_text fs' p = Inr (universal_newlines C)" by (rule write_then_read)
  then show ?thesis by (simp add: read_file_def universal_newlines_id)
qed

lemma fs_ab_create_new:
  "edit_file demo_str fs_ab (Some ''new.txt'') None (Some ''hi'') =
     (''Successfully created new.txt'',
      fs_ab\<lparr>entries := entries fs_ab @ [([''work'', ''new.txt''], File ''hi'')]\<rparr>)"
  by (simp add: edit_file_def fs_ab_def path_exists_def stat_def resolve_def node_at_def
      path_dirname_def path_split_def write_text_def)

theorem edit_file_create_then_read_witness:
  "edit_file demo_str fs_ab (Some ''new.txt'') None (Some ''hi'') =
     (''Successfully created new.txt'',
      fs_ab\<lparr>entries := entries fs_ab @ [([''work'', ''new.txt''], File ''hi'')]\<rparr>)
   \<and> read_file demo_str (fs_ab\<lparr>entries := entries fs_ab @ [([''work'', ''new.txt''], File ''hi'')]\<rparr>)
       (Some ''new.txt'') = ''File contents of new.txt:'' @ LF # ''hi''"
proof -
  have h: "edit_file demo_str fs_ab (Some ''new.txt'') None (Some ''hi'') =
     (''Successfully created '' @ ''new.txt'',
      fs_ab\<lparr>entries := entries fs_ab @ [([''work'', ''new.txt''], File ''hi'')]\<rparr>)"
    using fs_ab_create_new by simp
  from edit_file_create_then_read [OF h, of demo_str] fs_ab_create_new show ?thesis by simp
qed

lemma fs_ab_create_cr:
  "edit_file demo_str fs_ab (Some ''cr.txt'') None (Some [CHR ''a'', CR, CHR ''b'']) =
     (''Successfully created cr.txt'',
      fs_ab\<lparr>entries := entries fs_ab @ [([''work'', ''cr.txt''], File [CHR ''a'', CR, CHR ''b''])]\<rparr>)"
  by (simp add: edit_file_def fs_ab_def path_exists_def stat_def resolve_def node_at_def
      path_dirname_def path_split_def write_text_def)

text \<open>
  Claim C5 as stated fails: after \<^verbatim>\<open>new.txt\<close> is created with the content \<^verbatim>\<open>hi\<close>,
  \<open>read_file\<close> returns \<^verbatim>\<open>File contents of new.txt:\nhi\<close>, which is not \<^verbatim>\<open>hi\<close>;
  and after \<^verbatim>\<open>cr.txt\<close> is created with the content \<^verbatim>\<open>a\rb\<close>, what follows the
  header is \<^verbatim>\<open>a\nb\<close>.
\<close>

theorem edit_file_roundtrip_counterexample:
  "fst (edit_file demo_str fs_ab (Some ''new.txt'') None (Some ''hi'')) = ''Successfully created new.txt''
   \<and> read_file demo_str (snd (edit_file demo_str fs_ab (Some ''new.txt'') None (Some ''hi'')))
       (Some ''new.txt'') = ''File contents of new.txt:'' @ LF # ''hi''
   \<and> read_file demo_str (snd (edit_file demo_str fs_ab (Some ''new.txt'') None (Some ''hi'')))
       (Some ''new.txt'') \<noteq> ''hi''
   \<and> fst (edit_file demo_str fs_ab (Some ''cr.txt'') None (Some [CHR ''a'', CR, CHR ''b''])) =
       ''Successfully created cr.txt''
   \<and> read_file demo_str
       (snd (edit_file demo_str fs_ab (Some ''cr.txt'') None (Some [CHR ''a'', CR, CHR ''b''])))
       (Some ''cr.txt'') = ''File contents of cr.txt:'' @ LF # [CHR ''a'', LF, CHR ''b'']"
  unfolding fs_ab_create_new fs_ab_create_cr fst_conv snd_conv
  by (simp add: read_file_def read_text_def stat_def resolve_def node_at_def fs_ab_def)

lemma read_text_file: "stat fs p = Inr (File t) \<Longrightarrow> read_text fs p = Inr (universal_newlines t)"
  by (simp add: read_text_def)

lemma fs_ab_stat_a: "stat fs_ab ''a.txt'' = Inr (File ''hello'')"
  by (simp add: stat_def resolve_def node_at_def fs_ab_def)

lemma fs_ab_read_a: "read_text fs_ab ''a.txt'' = Inr ''hello''"
  by (simp add: read_text_file [OF fs_ab_stat_a])

lemma fs_cr_stat_crlf: "stat fs_cr ''crlf.txt'' = Inr (File [CHR ''a'', CR, LF, CHR ''b''])"
  by (simp add: stat_def resolve_def node_at_def fs_cr_def)

lemma fs_cr_stat_cr: "stat fs_cr ''cr.txt'' = Inr (File [CHR ''a'', CR, CHR ''b''])"
  by (simp add: stat_def resolve_def node_at_def fs_cr_def)

text \<open>
  Claim C6, as amended. For every existing file at \<open>p\<close> and every non-empty \<open>old\<close>
  that is not a substring of the file's content as the tool reads it, in text mode
  (every \<^verbatim>\<open>\r\n\<close> and lone \<^verbatim>\<open>\r\<close> of the stored content as \<^verbatim>\<open>\n\<close>; the stored
  content itself when it has no carriage return), \<open>edit_file\<close> returns
  \<^verbatim>\<open>Text not found in file: <old>\<close> and leaves the file system, and so the file, as
  it was.
\<close>

theorem edit_file_text_not_found:
  "(stat fs p = Inr (File t) \<and> old \<noteq> [] \<and> \<not> sublist old (universal_newlines t) \<longrightarrow>
      edit_file str_of fs (Some p) (Some old) new_text = (''Text not found in file: '' @ old, fs))
   \<and> (read_text fs p = Inr content \<and> old \<noteq> [] \<and> \<not> sublist old content \<longrightarrow>
      edit_file str_of fs (Some p) (Some old) new_text = (''Text not found in file: '' @ old, fs))
   \<and> (stat fs p = Inr (File t) \<and> CR \<notin> set t \<and> old \<noteq> [] \<and> \<not> sublist old t \<longrightarrow>
      edit_file str_of fs (Some p) (Some old) new_text = (''Text not found in file: '' @ old, fs))"
proof (intro conjI impI)
  assume a: "stat fs p = Inr (File t) \<and> old \<noteq> [] \<and> \<not> sublist old (universal_newlines t)"
  then have "read_text fs p = Inr (universal_newlines t)"
    by (simp add: read_text_file)
  with a show "edit_file str_of fs (Some p) (Some old) new_text = (''Text not found in file: '' @ old, fs)"
    by (simp add: edit_file_def read_text_exists py_in_sublist)
next
  assume "read_text fs p = Inr content \<and> old \<noteq> [] \<and> \<not> sublist old content"
  then show "edit_file str_of fs (Some p) (Some old) new_text = (''Text not found in file: '' @ old, fs)"
    by (simp add: edit_file_def read_text_exists py_in_sublist)
next
  assume a: "stat fs p = Inr (File t) \<and> CR \<notin> set t \<and> old \<noteq> [] \<and> \<not> sublist old t"
  then have "read_text fs p = Inr t"
    by (simp add: read_text_file universal_newlines_id)
  with a show "edit_file str_of fs (Some p) (Some old) new_text = (''Text not found in file: '' @ old, fs)"
    by (simp add: edit_file_def read_text_exists py_in_sublist)
qed

theorem edit_file_text_not_found_witness:
  "read_text fs_ab ''a.txt'' = Inr ''hello'' \<and> stat fs_ab ''a.txt'' = Inr (File ''hello'')
   \<and> CR \<notin> set ''hello'' \<and> ''xyz'' \<noteq> [] \<and> \<not> sublist ''xyz'' ''hello''
   \<and> edit_file demo_str fs_ab (Some ''a.txt'') (Some ''xyz'') (Some ''new'') =
       (''Text not found in file: xyz'', fs_ab)
   \<and> stat fs_cr ''crlf.txt'' = Inr (File [CHR ''a'', CR, LF, CHR ''b''])
   \<and> [CR, LF] \<noteq> [] \<and> \<not> sublist [CR, LF] (universal_newlines [CHR ''a'', CR, LF, CHR ''b''])
   \<and> edit_file demo_str fs_cr (Some ''crlf.txt'') (Some [CR, LF]) (Some ''new'') =
       (''Text not found in file: '' @ [CR, LF], fs_cr)"
proof -
  have n: "\<not> sublist ''xyz'' ''hello''"
    unfolding py_in_sublist [symmetric] by simp
  have n2: "\<not> sublist [CR, LF] (universal_newlines [CHR ''a'', CR, LF, CHR ''b''])"
    unfolding py_in_sublist [symmetric] by simp
  from edit_file_text_not_found [of fs_ab "''a.txt''" "''hello''" "''xyz''" demo_str "Some ''new''" "''hello''"]
    fs_ab_read_a fs_ab_stat_a n
  have e1: "edit_file demo_str fs_ab (Some ''a.txt'') (Some ''xyz'') (Some ''new'') =
       (''Text not found in file: xyz'', fs_ab)"
    by simp
  from edit_file_text_not_found [of fs_cr "''crlf.txt''" "[CHR ''a'', CR, LF, CHR ''b'']" "[CR, LF]"
      demo_str "Some ''new''"]
    fs_cr_stat_crlf n2
  have e2: "edit_file demo_str fs_cr (Some ''crlf.txt'') (Some [CR, LF]) (Some ''new'') =
       (''Text not found in file: '' @ [CR, LF], fs_cr)"
    by simp
  from fs_ab_read_a fs_ab_stat_a n n2 e1 e2 fs_cr_stat_crlf show ?thesis by simp
qed

text \<open>
  Claim C6 as stated fails on a file with carriage returns: \<^verbatim>\<open>crlf.txt\<close> holds
  \<^verbatim>\<open>a\r\nb\<close>, of which \<^verbatim>\<open>a\nb\<close> is no substring, yet \<open>edit_file\<close> finds \<^verbatim>\<open>a\nb\<close> in
  the text it reads, replaces it and rewrites the file.
\<close>

theorem edit_file_crlf_counterexample:
  "stat fs_cr ''crlf.txt'' = Inr (File [CHR ''a'', CR, LF, CHR ''b''])
   \<and> [CHR ''a'', LF, CHR ''b''] \<noteq> []
   \<and> \<not> sublist [CHR ''a'', LF, CHR ''b''] [CHR ''a'', CR, LF, CHR ''b'']
   \<and> fst (edit_file demo_str fs_cr (Some ''crlf.txt'') (Some [CHR ''a'', LF, CHR ''b'']) (Some ''X''))
       = ''Successfully edited crlf.txt''
   \<and> fst (edit_file demo_str fs_cr (Some ''crlf.txt'') (Some [CHR ''a'', LF, CHR ''b'']) (Some ''X''))
       \<noteq> ''Text not found in file: '' @ [CHR ''a'', LF, CHR ''b'']
   \<and> stat (snd (edit_file demo_str fs_cr (Some ''crlf.txt'') (Some [CHR ''a'', LF, CHR ''b''])
       (Some ''X''))) ''crlf.txt'' = Inr (File ''X'')"
proof -
  have n: "\<not> sublist [CHR ''a'', LF, CHR ''b''] [CHR ''a'', CR, LF, CHR ''b'']"
    unfolding py_in_sublist [symmetric] by simp
  have e: "edit_file demo_str fs_cr (Some ''crlf.txt'') (Some [CHR ''a'', LF, CHR ''b'']) (Some ''X'') =
      (''Successfully edited crlf.txt'',
       \<lparr>entries = [([''work''], Dir), ([''work'', ''crlf.txt''], File ''X''),
                   ([''work'', ''cr.txt''], File [CHR ''a'', CR, CHR ''b''])],
        cwd = [''work'']\<rparr>)"
    by (simp add: edit_file_def fs_cr_def path_exists_def read_text_def stat_def resolve_def
        node_at_def write_text_def)
  show ?thesis
    unfolding e fst_conv snd_conv using n fs_cr_stat_crlf
    by (simp add: stat_def resolve_def node_at_def)
qed

text \<open>
  Claim C7, as amended. In a directory that holds only the file \<^verbatim>\<open>a.txt\<close> and the
  directory \<^verbatim>\<open>b\<close>, \<open>list_files\<close> of \<^verbatim>\<open>.\<close> returns
  \<^verbatim>\<open>Contents of .:\n[FILE] a.txt\n[DIR]  b/\<close>: the entries are sorted by name, so
  \<^verbatim>\<open>a.txt\<close> comes before \<^verbatim>\<open>b\<close>. This agrees with every listing of a directory
  that is not empty: after the header come the names in sorted order, one on a line,
  a directory as \<^verbatim>\<open>[DIR]  <name>/\<close> and anything else as \<^verbatim>\<open>[FILE] <name>\<close>.
\<close>

theorem list_files_example:
  "(os_listdir fs ''.'' = Inr names \<and> set names = {''a.txt'', ''b''}
      \<and> \<not> path_isdir fs (path_join ''.'' ''a.txt'') \<and> path_isdir fs (path_join ''.'' ''b'') \<longrightarrow>
      list_files str_of fs (Some ''.'') =
        ''Contents of .:'' @ LF # ''[FILE] a.txt'' @ LF # ''[DIR]  b/'')
   \<and> (os_listdir fs p = Inr children \<and> children \<noteq> [] \<longrightarrow>
      list_files str_of fs (Some p) =
        ''Contents of '' @ p @ '':'' @ LF #
          join_nl (map (\<lambda>item. if path_isdir fs (path_join p item) then ''[DIR]  '' @ item @ ''/''
                               else ''[FILE] '' @ item) (sort children))
      \<and> sorted (sort children) \<and> set (sort children) = set children
      \<and> length (sort children) = length children)"
proof (intro conjI impI)
  assume a: "os_listdir fs ''.'' = Inr names \<and> set names = {''a.txt'', ''b''}
      \<and> \<not> path_isdir fs (path_join ''.'' ''a.txt'') \<and> path_isdir fs (path_join ''.'' ''b'')"
  then have l: "os_listdir fs ''.'' = Inr names" by simp
  have "sort names = [''a.txt'', ''b'']"
    using os_listdir_distinct [OF l] a by (intro sort_two) simp_all
  with a os_listdir_exists [OF l] show "list_files str_of fs (Some ''.'') =
        ''Contents of .:'' @ LF # ''[FILE] a.txt'' @ LF # ''[DIR]  b/''"
    by (simp add: list_files_def list_item_def)
next
  assume b: "os_listdir fs p = Inr children \<and> children \<noteq> []"
  then have l: "os_listdir fs p = Inr children" by simp
  from b have "sort children \<noteq> []"
    by (metis length_0_conv length_sort)
  with l os_listdir_exists [OF l] show "list_files str_of fs (Some p) =
        ''Contents of '' @ p @ '':'' @ LF #
          join_nl (map (\<lambda>item. if path_isdir fs (path_join p item) then ''[DIR]  '' @ item @ ''/''
                               else ''[FILE] '' @ item) (sort children))"
    by (simp add: list_files_def list_item_def [abs_def])
qed simp_all

lemma fs_ab_listdir: "os_listdir fs_ab ''.'' = Inr [''b'', ''a.txt'']"
  by (simp add: os_listdir_def resolve_def node_at_def fs_ab_def)

lemma fs_ab_isdir:
  "\<not> path_isdir fs_ab (path_join ''.'' ''a.txt'')" "path_isdir fs_ab (path_join ''.'' ''b'')"
  by (simp_all add: path_isdir_def path_join_def stat_def resolve_def node_at_def fs_ab_def)

theorem list_files_example_witness:
  "os_listdir fs_ab ''.'' = Inr [''b'', ''a.txt''] \<and> set [''b'', ''a.txt''] = {''a.txt'', ''b''}
   \<and> \<not> path_isdir fs_ab (path_join ''.'' ''a.txt'') \<and> path_isdir fs_ab (path_join ''.'' ''b'')
   \<and> [''b'', ''a.txt''] \<noteq> []
   \<and> sort [''b'', ''a.txt''] = [''a.txt'', ''b'']
   \<and> list_files demo_str fs_ab (Some ''.'') =
       ''Contents of .:'' @ LF # ''[FILE] a.txt'' @ LF # ''[DIR]  b/''"
proof -
  have s: "set [''b'', ''a.txt''] = {''a.txt'', ''b''}" by auto
  from list_files_example [of fs_ab "[''b'', ''a.txt'']" demo_str "''.''" "[''b'', ''a.txt'']"]
    fs_ab_listdir s fs_ab_isdir
  show ?thesis by simp
qed

text \<open>
  Claim C7 as stated fails: in such a directory the listing is not
  \<^verbatim>\<open>Contents of .:\n[DIR]  b/\n[FILE] a.txt\<close>.
\<close>

theorem list_files_example_counterexample:
  "os_listdir fs_ab ''.'' = Inr [''b'', ''a.txt'']
   \<and> list_files demo_str fs_ab (Some ''.'') =
       ''Contents of .:'' @ LF # ''[FILE] a.txt'' @ LF # ''[DIR]  b/''
   \<and> list_files demo_str fs_ab (Some ''.'') \<noteq>
       ''Contents of .:'' @ LF # ''[DIR]  b/'' @ LF # ''[FILE] a.txt''"
  by (simp add: fs_ab_listdir fs_ab_listing)

text \<open>
  Claim C8. For a tool name other than \<^verbatim>\<open>read_file\<close>, \<^verbatim>\<open>list_files\<close> and
  \<^verbatim>\<open>edit_file\<close>, and any tool input, the executor returns \<^verbatim>\<open>Unknown tool: <name>\<close>;
  it returns a string in every case, and here the file system is as before.
\<close>

theorem execute_tool_unknown:
  "tool_name \<notin> {''read_file'', ''list_files'', ''edit_file''} \<Longrightarrow>
   execute_tool str_of fs tool_name tool_input = (''Unknown tool: '' @ tool_name, fs)"
  by (simp add: execute_tool_def)

theorem execute_tool_unknown_witness:
  "''delete_file'' \<notin> {''read_file'', ''list_files'', ''edit_file''} \<and>
   execute_tool demo_str fs_ab ''delete_file'' [(''path'', Some ''a.txt'')]
     = (''Unknown tool: delete_file'', fs_ab)"
  using execute_tool_unknown [of "''delete_file''" demo_str fs_ab "[(''path'', Some ''a.txt'')]"]
  by simp

text \<open>
  Claim C9, as amended. When the tool input gives \<^verbatim>\<open>path\<close> as \<^verbatim>\<open>None\<close> or as the empty
  string, the executor returns what \<open>list_files\<close> returns for \<^verbatim>\<open>.\<close>; when the tool
  input has no key \<^verbatim>\<open>path\<close>, it returns \<^verbatim>\<open>Error executing list_files: \<close> followed by
  the text of the \<^verbatim>\<open>KeyError\<close>.
\<close>

theorem list_files_default_path:
  "(map_of tool_input ''path'' = Some v \<and> \<not> truthy v \<longrightarrow>
      execute_tool str_of fs ''list_files'' tool_input = (list_files str_of fs (Some ''.''), fs))
   \<and> (map_of tool_input ''path'' = None \<longrightarrow>
      execute_tool str_of fs ''list_files'' tool_input =
        (''Error executing list_files: '' @ str_of (KeyError ''path''), fs))"
  by (simp add: execute_tool_def subscript_def)

theorem list_files_default_path_witness:
  "map_of [(''path'', None)] ''path'' = Some None \<and> \<not> truthy None
   \<and> execute_tool demo_str fs_ab ''list_files'' [(''path'', None)] =
       (''Contents of .:'' @ LF # ''[FILE] a.txt'' @ LF # ''[DIR]  b/'', fs_ab)
   \<and> map_of ([] :: tool_input) ''path'' = None
   \<and> execute_tool demo_str fs_ab ''list_files'' [] =
       (''Error executing list_files: '' @ CHR 0x27 # ''path'' @ [CHR 0x27], fs_ab)"
  using list_files_default_path [of "[(''path'', None)]" None demo_str fs_ab]
    list_files_default_path [of "[]" None demo_str fs_ab] fs_ab_listing
  by simp

text \<open>
  Claim C9 as stated fails for a path that is absent from the tool input: the
  executor then returns an error text, not the listing of the current directory.
\<close>

theorem list_files_absent_path_counterexample:
  "execute_tool demo_str fs_ab ''list_files'' [] =
     (''Error executing list_files: '' @ CHR 0x27 # ''path'' @ [CHR 0x27], fs_ab)
   \<and> list_files demo_str fs_ab (Some ''.'') =
       ''Contents of .:'' @ LF # ''[FILE] a.txt'' @ LF # ''[DIR]  b/''
   \<and> fst (execute_tool demo_str fs_ab ''list_files'' []) \<noteq> list_files demo_str fs_ab (Some ''.'')"
  by (simp add: execute_tool_def subscript_def fs_ab_listing)

lemma universal_newlines_count:
  "c \<noteq> CR \<Longrightarrow> c \<noteq> LF \<Longrightarrow> count_list (universal_newlines s) c = count_list s c"
  by (induction s rule: universal_newlines.induct) auto

lemma header_not_content:
  "''File contents of '' @ p @ '':'' @ LF # universal_newlines t \<noteq> t"
proof
  assume "''File contents of '' @ p @ '':'' @ LF # universal_newlines t = t"
  then have "count_list (''File contents of '' @ p @ '':'' @ LF # universal_newlines t) (CHR ''F'')
      = count_list t (CHR ''F'')"
    by simp
  then show False
    by (simp add: universal_newlines_count)
qed

text \<open>
  Claim C10, as amended. For every file at \<open>p\<close>, \<open>read_file\<close> returns
  \<^verbatim>\<open>File contents of <p>:\<close>, a newline and the content of the file as a text-mode
  read gives it (every \<^verbatim>\<open>\r\n\<close> and lone \<^verbatim>\<open>\r\<close> of the stored content as \<^verbatim>\<open>\n\<close>; the
  stored content itself when it has no carriage return). The result always begins
  with the header line and is never the bare content, stored or read.
\<close>

theorem read_file_header:
  "(stat fs p = Inr (File t) \<longrightarrow>
      read_file str_of fs (Some p) = ''File contents of '' @ p @ '':'' @ LF # universal_newlines t
      \<and> read_file str_of fs (Some p) \<noteq> t
      \<and> read_file str_of fs (Some p) \<noteq> universal_newlines t)
   \<and> (read_text fs p = Inr C \<longrightarrow>
      read_file str_of fs (Some p) = ''File contents of '' @ p @ '':'' @ LF # C
      \<and> read_file str_of fs (Some p) \<noteq> C)
   \<and> (stat fs p = Inr (File t) \<and> CR \<notin> set t \<longrightarrow>
      read_file str_of fs (Some p) = ''File contents of '' @ p @ '':'' @ LF # t
      \<and> read_file str_of fs (Some p) \<noteq> t)"
  using header_not_content [of p t]
  by (simp add: read_file_def read_text_file universal_newlines_id)

theorem read_file_header_witness:
  "read_text fs_ab ''a.txt'' = Inr ''hello'' \<and> stat fs_ab ''a.txt'' = Inr (File ''hello'')
   \<and> CR \<notin> set ''hello''
   \<and> read_file demo_str fs_ab (Some ''a.txt'') = ''File contents of a.txt:'' @ LF # ''hello''
   \<and> read_file demo_str fs_ab (Some ''a.txt'') \<noteq> ''hello''
   \<and> stat fs_cr ''cr.txt'' = Inr (File [CHR ''a'', CR, CHR ''b''])
   \<and> read_file demo_str fs_cr (Some ''cr.txt'') = ''File contents of cr.txt:'' @ LF # [CHR ''a'', LF, CHR ''b'']
   \<and> read_file demo_str fs_cr (Some ''cr.txt'') \<noteq> [CHR ''a'', CR, CHR ''b'']"
  using read_file_header [of fs_ab "''a.txt''" "''hello''" demo_str "''hello''"]
    read_file_header [of fs_cr "''cr.txt''" "[CHR ''a'', CR, CHR ''b'']" demo_str]
    fs_ab_read_a fs_ab_stat_a fs_cr_stat_cr
  by simp

text \<open>
  Claim C10 as stated fails on a file with a carriage return: \<^verbatim>\<open>cr.txt\<close> holds
  \<^verbatim>\<open>a\rb\<close>, and \<open>read_file\<close> returns the header followed by \<^verbatim>\<open>a\nb\<close>.
\<close>

theorem read_file_cr_counterexample:
  "stat fs_cr ''cr.txt'' = Inr (File [CHR ''a'', CR, CHR ''b''])
   \<and> read_file demo_str fs_cr (Some ''cr.txt'') =
       ''File contents of cr.txt:'' @ LF # [CHR ''a'', LF, CHR ''b'']
   \<and> read_file demo_str fs_cr (Some ''cr.txt'') \<noteq>
       ''File contents of cr.txt:'' @ LF # [CHR ''a'', CR, CHR ''b'']"
  by (simp add: fs_cr_stat_cr read_file_def read_text_def)

section \<open>Properties of the loop\<close>

lemma function_calls_empty_iff:
  "function_calls items = [] \<longleftrightarrow> (\<forall>cid nm args. FunctionCall cid nm args \<notin> set items)"
  by (induction items rule: function_calls.induct) auto

lemma requests_append: "requests (xs @ ys) = requests xs @ requests ys"
  by (induction xs rule: requests.induct) auto

lemma tool_calls_append: "tool_calls (xs @ ys) = tool_calls xs @ tool_calls ys"
  by (induction xs rule: tool_calls.induct) auto

lemma requests_empty_no_request: "requests evs = [] \<Longrightarrow> Request inp r \<notin> set evs"
  by (induction evs rule: requests.induct) auto

text \<open>
  The loop over the function calls touches neither \<open>input\<close> nor the service, and adds
  to the trace only executions of tools.
\<close>

lemma run_tools_frame:
  "run_tools env calls acc st = (r, st') \<Longrightarrow>
   input st' = input st \<and> service st' = service st
   \<and> (\<exists>evs. trace st' = trace st @ evs \<and> requests evs = [])"
proof (induction calls arbitrary: acc st)
  case Nil
  then show ?case by auto
next
  case (Cons call calls)
  obtain cid nm args where call: "call = (cid, nm, args)" by (cases call)
  show ?case
  proof (cases "loads env (if truthy args then the args else ''{}'')")
    case (Inl e)
    with Cons.prems call show ?thesis by auto
  next
    case (Inr tool_input)
    obtain result fs' where ex: "execute_tool (exn_str env) (files st) nm tool_input = (result, fs')"
      by (cases "execute_tool (exn_str env) (files st) nm tool_input")
    let ?st1 = "st\<lparr>files := fs', trace := trace st @ [ToolCall nm tool_input result]\<rparr>"
    from Cons.prems call Inr ex
    have "run_tools env calls (acc @ [FunctionCallOutput cid result]) ?st1 = (r, st')"
      by simp
    from Cons.IH [OF this] show ?thesis
      by (auto simp: requests_append)
  qed
qed

text \<open>One turn of the loop, in each of its four outcomes.\<close>

lemma chat_loop_failed:
  "create env (service st) (input st) = (Inl e, s') \<Longrightarrow>
   chat_loop env (Suc fuel) st =
     (Some (''Error: '' @ exn_str env e),
      st\<lparr>service := s', trace := trace st @ [Request (input st) (Inl e)]\<rparr>)"
  by simp

lemma chat_loop_done:
  "create env (service st) (input st) = (Inr resp, s') \<Longrightarrow>
   function_calls (output_items resp) = [] \<Longrightarrow>
   chat_loop env (Suc fuel) st =
     (Some (case output_text resp of None \<Rightarrow> [] | Some t \<Rightarrow> t),
      st\<lparr>input := input st @ map OutputItem (output_items resp), service := s',
         trace := trace st @ [Request (input st) (Inr resp)]\<rparr>)"
  by (simp add: Let_def)

lemma chat_loop_tools_failed:
  "create env (service st) (input st) = (Inr resp, s') \<Longrightarrow>
   function_calls (output_items resp) \<noteq> [] \<Longrightarrow>
   run_tools env (function_calls (output_items resp)) []
     (st\<lparr>input := input st @ map OutputItem (output_items resp), service := s',
        trace := trace st @ [Request (input st) (Inr resp)]\<rparr>) = (Inl e, st2) \<Longrightarrow>
   chat_loop env (Suc fuel) st = (Some (''Error: '' @ exn_str env e), st2)"
  by (simp add: Let_def)

lemma chat_loop_again:
  "create env (service st) (input st) = (Inr resp, s') \<Longrightarrow>
   function_calls (output_items resp) \<noteq> [] \<Longrightarrow>
   run_tools env (function_calls (output_items resp)) []
     (st\<lparr>input := input st @ map OutputItem (output_items resp), service := s',
        trace := trace st @ [Request (input st) (Inr resp)]\<rparr>) = (Inr function_results, st2) \<Longrightarrow>
   chat_loop env (Suc fuel) st = chat_loop env fuel (st2\<lparr>input := input st2 @ function_results\<rparr>)"
  by (simp add: Let_def)

lemma function_calls_nonempty_items: "function_calls items \<noteq> [] \<Longrightarrow> items \<noteq> []"
  by auto

text \<open>
  The invariant of the loop: \<open>input\<close> only grows at its end, and every request sends
  a list that extends, by at least one turn, the list of the request before it.
\<close>

lemma chat_loop_append_only:
  "chat_loop env fuel st = (res, st') \<Longrightarrow>
   prefix (input st) (input st') \<and>
   (\<exists>evs. trace st' = trace st @ evs \<and> sorted_wrt strict_prefix (requests evs)
      \<and> (\<forall>r \<in> set (requests evs). prefix (input st) r \<and> prefix r (input st')))"
proof (induction fuel arbitrary: st)
  case 0
  then show ?case by simp
next
  case (Suc fuel)
  obtain a s' where c: "create env (service st) (input st) = (a, s')"
    by (cases "create env (service st) (input st)")
  show ?case
  proof (cases a)
    case (Inl e)
    from chat_loop_failed [OF c [unfolded Inl], of fuel] Suc.prems
    have "input st' = input st" and "trace st' = trace st @ [Request (input st) (Inl e)]"
      by auto
    then show ?thesis by simp
  next
    case (Inr resp)
    note c' = c [unfolded Inr]
    let ?st1 = "st\<lparr>input := input st @ map OutputItem (output_items resp), service := s',
        trace := trace st @ [Request (input st) (Inr resp)]\<rparr>"
    show ?thesis
    proof (cases "function_calls (output_items resp) = []")
      case True
      from chat_loop_done [OF c' True, of fuel] Suc.prems
      have "input st' = input st @ map OutputItem (output_items resp)"
        and "trace st' = trace st @ [Request (input st) (Inr resp)]"
        by auto
      then show ?thesis by simp
    next
      case False
      obtain r st2 where rt:
        "run_tools env (function_calls (output_items resp)) [] ?st1 = (r, st2)"
        by (cases "run_tools env (function_calls (output_items resp)) [] ?st1")
      from run_tools_frame [OF rt] obtain tevs where
        i2: "input st2 = input st @ map OutputItem (output_items resp)"
        and t2: "trace st2 = trace st @ [Request (input st) (Inr resp)] @ tevs"
        and rq: "requests tevs = []"
        by auto
      show ?thesis
      proof (cases r)
        case (Inl e)
        from chat_loop_tools_failed [OF c' False rt [unfolded Inl], of fuel] Suc.prems
        have "st' = st2" by simp
        with i2 t2 rq show ?thesis by (simp add: requests_append)
      next
        case (Inr function_results)
        let ?st3 = "st2\<lparr>input := input st2 @ function_results\<rparr>"
        from chat_loop_again [OF c' False rt [unfolded Inr], of fuel] Suc.prems
        have "chat_loop env fuel ?st3 = (res, st')" by simp
        from Suc.IH [OF this] obtain evs' where
          p3: "prefix (input ?st3) (input st')"
          and t3: "trace st' = trace ?st3 @ evs'"
          and s3: "sorted_wrt strict_prefix (requests evs')"
          and r3: "\<forall>r \<in> set (requests evs'). prefix (input ?st3) r \<and> prefix r (input st')"
          by blast
        from False have ne: "output_items resp \<noteq> []"
          by (rule function_calls_nonempty_items)
        have i3: "input ?st3 = input st @ (map OutputItem (output_items resp) @ function_results)"
          using i2 by simp
        from ne have sp: "strict_prefix (input st) (input ?st3)"
          unfolding i3 by (simp add: strict_prefix_def)
        have p: "prefix (input st) (input st')"
          using sp p3 by (meson prefix_order.dual_order.strict_implies_order prefix_order.trans)
        have t: "trace st' = trace st @ ([Request (input st) (Inr resp)] @ tevs @ evs')"
          using t3 t2 by simp
        have rqs: "requests ([Request (input st) (Inr resp)] @ tevs @ evs') = input st # requests evs'"
          using rq by (simp add: requests_append)
        have all_strict: "\<forall>r \<in> set (requests evs'). strict_prefix (input st) r"
          using sp r3 by (meson prefix_order.less_le_trans)
        have "sorted_wrt strict_prefix (input st # requests evs')"
          using s3 all_strict by simp
        moreover have "\<forall>r \<in> set (input st # requests evs'). prefix (input st) r \<and> prefix r (input st')"
          using p r3 all_strict by (auto simp: strict_prefix_def)
        ultimately show ?thesis
          using p t rqs by metis
      qed
    qed
  qed
qed




text \<open>
  Claim C1. When the first response of the service has no function call among its
  output items, \<open>chat\<close> (with fuel for at least one request) returns the output text
  of that response, the empty string if the response has none; the call adds to the
  trace exactly one request and no execution of a tool, leaves the files as they
  were, and appends the user's message and the output items to the turn list.
\<close>

theorem chat_no_tool_calls:
  assumes "create env (service st) (input st @ [UserMessage user_input]) = (Inr resp, s')"
    and "\<forall>cid nm args. FunctionCall cid nm args \<notin> set (output_items resp)"
  shows "\<exists>st' evs. chat env (Suc fuel) st user_input =
           (Some (case output_text resp of None \<Rightarrow> [] | Some t \<Rightarrow> t), st')
    \<and> trace st' = trace st @ evs
    \<and> evs = [Request (input st @ [UserMessage user_input]) (Inr resp)]
    \<and> length (requests evs) = 1 \<and> tool_calls evs = []
    \<and> files st' = files st
    \<and> input st' = input st @ [UserMessage user_input] @ map OutputItem (output_items resp)"
proof -
  let ?st0 = "st\<lparr>input := input st @ [UserMessage user_input]\<rparr>"
  from assms(2) have n: "function_calls (output_items resp) = []"
    by (simp add: function_calls_empty_iff)
  from assms(1) have c: "create env (service ?st0) (input ?st0) = (Inr resp, s')" by simp
  from chat_loop_done [OF c n, of fuel] show ?thesis
    by (simp add: chat_def)
qed

text \<open>
  The calls of a batch run from left to right: once the calls before a call have
  run, the loop goes on with that call in the state they leave.
\<close>

lemma run_tools_append:
  "run_tools env pre acc st = (Inr acc1, st1) \<Longrightarrow>
   run_tools env (pre @ calls) acc st = run_tools env calls acc1 st1"
proof (induction pre arbitrary: acc st)
  case Nil
  then show ?case by simp
next
  case (Cons call pre)
  obtain cid nm args where call: "call = (cid, nm, args)" by (cases call)
  show ?case
  proof (cases "loads env (if truthy args then the args else ''{}'')")
    case (Inl e)
    with Cons.prems call show ?thesis by simp
  next
    case (Inr tool_input)
    obtain result fs' where ex: "execute_tool (exn_str env) (files st) nm tool_input = (result, fs')"
      by (cases "execute_tool (exn_str env) (files st) nm tool_input")
    from Cons.prems call Inr ex Cons.IH show ?thesis by simp
  qed
qed

text \<open>
  A call with malformed arguments ends the loop over the calls, wherever it stands in
  the batch: the tools executed are those of calls before it, and the exception is
  its own when the calls before it decode.
\<close>

lemma run_tools_malformed:
  assumes "truthy args" and "loads env (the args) = Inl e"
  shows "\<exists>e' st1 tevs. run_tools env (pre @ (cid, nm, args) # post) acc st = (Inl e', st1)
    \<and> trace st1 = trace st @ tevs
    \<and> prefix (map fst (tool_calls tevs)) (map (\<lambda>call. fst (snd call)) pre)
    \<and> ((\<forall>call \<in> set pre. decodes env (snd (snd call))) \<longrightarrow>
         e' = e \<and> map fst (tool_calls tevs) = map (\<lambda>call. fst (snd call)) pre)"
proof (induction pre arbitrary: acc st)
  case Nil
  from assms show ?case by simp
next
  case (Cons call pre)
  obtain c n a where call: "call = (c, n, a)" by (cases call)
  show ?case
  proof (cases "loads env (if truthy a then the a else ''{}'')")
    case (Inl e0)
    with call have "run_tools env ((call # pre) @ (cid, nm, args) # post) acc st = (Inl e0, st)"
      by simp
    moreover have "\<not> decodes env a"
      using Inl by (simp add: decodes_def)
    then have "\<not> (\<forall>call' \<in> set (call # pre). decodes env (snd (snd call')))"
      using call by simp
    ultimately show ?thesis
      by (rule_tac x = e0 in exI, rule_tac x = st in exI, rule_tac x = "[]" in exI) simp
  next
    case (Inr tool_input)
    obtain result fs' where ex: "execute_tool (exn_str env) (files st) n tool_input = (result, fs')"
      by (cases "execute_tool (exn_str env) (files st) n tool_input")
    let ?st1 = "st\<lparr>files := fs', trace := trace st @ [ToolCall n tool_input result]\<rparr>"
    from Cons.IH [of "acc @ [FunctionCallOutput c result]" ?st1]
    obtain e' st2 tevs where
      r: "run_tools env (pre @ (cid, nm, args) # post) (acc @ [FunctionCallOutput c result]) ?st1 = (Inl e', st2)"
      and t: "trace st2 = trace ?st1 @ tevs"
      and p: "prefix (map fst (tool_calls tevs)) (map (\<lambda>call. fst (snd call)) pre)"
      and d: "(\<forall>call \<in> set pre. decodes env (snd (snd call))) \<longrightarrow>
         e' = e \<and> map fst (tool_calls tevs) = map (\<lambda>call. fst (snd call)) pre"
      by blast
    from r call Inr ex
    have "run_tools env ((call # pre) @ (cid, nm, args) # post) acc st = (Inl e', st2)" by simp
    moreover from t have "trace st2 = trace st @ (ToolCall n tool_input result # tevs)" by simp
    moreover from p call
    have "prefix (map fst (tool_calls (ToolCall n tool_input result # tevs))) (map (\<lambda>call. fst (snd call)) (call # pre))"
      by simp
    moreover from d call
    have "(\<forall>call' \<in> set (call # pre). decodes env (snd (snd call'))) \<longrightarrow>
         e' = e \<and> map fst (tool_calls (ToolCall n tool_input result # tevs)) = map (\<lambda>call. fst (snd call)) (call # pre)"
      by simp
    ultimately show ?thesis by blast
  qed
qed

text \<open>
  The same for a whole run of the loop, for the response of any of its requests.
\<close>

lemma chat_loop_malformed:
  assumes "truthy args" and "loads env (the args) = Inl e"
  shows "chat_loop env fuel st = (res, st') \<Longrightarrow> trace st' = trace st @ evs \<Longrightarrow>
   Request inp (Inr resp) \<in> set evs \<Longrightarrow>
   function_calls (output_items resp) = pre @ (cid, nm, args) # post \<Longrightarrow>
   \<exists>e' before tevs. res = Some (''Error: '' @ exn_str env e')
     \<and> evs = before @ [Request inp (Inr resp)] @ tevs \<and> requests tevs = []
     \<and> prefix (map fst (tool_calls tevs)) (map (\<lambda>call. fst (snd call)) pre)
     \<and> input st' = inp @ map OutputItem (output_items resp)
     \<and> ((\<forall>call \<in> set pre. decodes env (snd (snd call))) \<longrightarrow>
          e' = e \<and> map fst (tool_calls tevs) = map (\<lambda>call. fst (snd call)) pre)"
proof (induction fuel arbitrary: st evs)
  case 0
  then show ?case by simp
next
  case (Suc fuel)
  obtain a s' where c: "create env (service st) (input st) = (a, s')"
    by (cases "create env (service st) (input st)")
  show ?case
  proof (cases a)
    case (Inl e0)
    from chat_loop_failed [OF c [unfolded Inl], of fuel] Suc.prems(1)
    have "trace st' = trace st @ [Request (input st) (Inl e0)]" by auto
    with Suc.prems(2,3) show ?thesis by auto
  next
    case (Inr resp0)
    note c' = c [unfolded Inr]
    let ?st1 = "st\<lparr>input := input st @ map OutputItem (output_items resp0), service := s',
        trace := trace st @ [Request (input st) (Inr resp0)]\<rparr>"
    show ?thesis
    proof (cases "function_calls (output_items resp0) = []")
      case True
      from chat_loop_done [OF c' True, of fuel] Suc.prems(1)
      have "trace st' = trace st @ [Request (input st) (Inr resp0)]" by auto
      with Suc.prems(2,3) have "resp = resp0" by auto
      with True Suc.prems(4) show ?thesis by simp
    next
      case False
      obtain r st2 where rt:
        "run_tools env (function_calls (output_items resp0)) [] ?st1 = (r, st2)"
        by (cases "run_tools env (function_calls (output_items resp0)) [] ?st1")
      from run_tools_frame [OF rt] obtain tevs where
        i2: "input st2 = input st @ map OutputItem (output_items resp0)"
        and t2: "trace st2 = trace st @ [Request (input st) (Inr resp0)] @ tevs"
        and rq: "requests tevs = []"
        by auto
      from rq have nt: "\<And>inp' r'. Request inp' r' \<notin> set tevs"
        by (rule requests_empty_no_request)
      have here: "\<exists>e' before tevs'. r = Inl e'
          \<and> [Request (input st) (Inr resp0)] @ tevs = before @ [Request inp (Inr resp)] @ tevs'
          \<and> requests tevs' = []
          \<and> prefix (map fst (tool_calls tevs')) (map (\<lambda>call. fst (snd call)) pre)
          \<and> input st2 = inp @ map OutputItem (output_items resp)
          \<and> ((\<forall>call \<in> set pre. decodes env (snd (snd call))) \<longrightarrow>
               e' = e \<and> map fst (tool_calls tevs') = map (\<lambda>call. fst (snd call)) pre)"
        if eq: "inp = input st" "resp = resp0"
      proof -
        from run_tools_malformed [OF assms, of pre cid nm post "[]" ?st1] Suc.prems(4) eq
        obtain e' st1 tevs1 where
          r1: "run_tools env (function_calls (output_items resp0)) [] ?st1 = (Inl e', st1)"
          and t1: "trace st1 = trace ?st1 @ tevs1"
          and p1: "prefix (map fst (tool_calls tevs1)) (map (\<lambda>call. fst (snd call)) pre)"
          and d1: "(\<forall>call \<in> set pre. decodes env (snd (snd call))) \<longrightarrow>
             e' = e \<and> map fst (tool_calls tevs1) = map (\<lambda>call. fst (snd call)) pre"
          by auto
        from r1 rt have "r = Inl e'" "st2 = st1" by simp_all
        with t1 t2 have "tevs1 = tevs" by simp
        with \<open>r = Inl e'\<close> p1 d1 rq i2 eq show ?thesis
          by (rule_tac x = e' in exI, rule_tac x = "[]" in exI, rule_tac x = tevs in exI) simp
      qed
      show ?thesis
      proof (cases r)
        case (Inl e1)
        from chat_loop_tools_failed [OF c' False rt [unfolded Inl], of fuel] Suc.prems(1)
        have res: "res = Some (''Error: '' @ exn_str env e1)" and st': "st' = st2" by simp_all
        with t2 Suc.prems(2) have evs: "evs = [Request (input st) (Inr resp0)] @ tevs" by simp
        with Suc.prems(3) nt have "inp = input st" "resp = resp0" by auto
        from here [OF this] obtain e' before tevs' where
          h: "r = Inl e'"
          "[Request (input st) (Inr resp0)] @ tevs = before @ [Request inp (Inr resp)] @ tevs'"
          "requests tevs' = []"
          "prefix (map fst (tool_calls tevs')) (map (\<lambda>call. fst (snd call)) pre)"
          "input st2 = inp @ map OutputItem (output_items resp)"
          "(\<forall>call \<in> set pre. decodes env (snd (snd call))) \<longrightarrow>
             e' = e \<and> map fst (tool_calls tevs') = map (\<lambda>call. fst (snd call)) pre"
          by blast
        from h(1) Inl have "e1 = e'" by simp
        with res st' evs h show ?thesis
          by (rule_tac x = e' in exI, rule_tac x = before in exI, rule_tac x = tevs' in exI) simp
      next
        case (Inr function_results)
        let ?st3 = "st2\<lparr>input := input st2 @ function_results\<rparr>"
        from chat_loop_again [OF c' False rt [unfolded Inr], of fuel] Suc.prems(1)
        have run: "chat_loop env fuel ?st3 = (res, st')" by simp
        from chat_loop_append_only [OF run] obtain evs' where t3: "trace st' = trace ?st3 @ evs'"
          by blast
        with t2 Suc.prems(2) have evs: "evs = [Request (input st) (Inr resp0)] @ tevs @ evs'"
          by simp
        have "\<not> (inp = input st \<and> resp = resp0)"
          using here Inr by auto
        with evs Suc.prems(3) nt have "Request inp (Inr resp) \<in> set evs'" by auto
        from Suc.IH [OF run t3 this Suc.prems(4)] obtain e' before tevs' where
          "res = Some (''Error: '' @ exn_str env e')"
          "evs' = before @ [Request inp (Inr resp)] @ tevs'" "requests tevs' = []"
          "prefix (map fst (tool_calls tevs')) (map (\<lambda>call. fst (snd call)) pre)"
          "input st' = inp @ map OutputItem (output_items resp)"
          "(\<forall>call \<in> set pre. decodes env (snd (snd call))) \<longrightarrow>
             e' = e \<and> map fst (tool_calls tevs') = map (\<lambda>call. fst (snd call)) pre"
          by blast
        with evs show ?thesis
          by (rule_tac x = e' in exI,
              rule_tac x = "[Request (input st) (Inr resp0)] @ tevs @ before" in exI,
              rule_tac x = tevs' in exI) simp
      qed
    qed
  qed
qed


text \<open>
  Claim C3, as amended. A function call whose arguments are \<^verbatim>\<open>None\<close> or the empty
  string is executed with the empty dictionary (\<^verbatim>\<open>json.loads("{}")\<close>), at the head of
  a batch or after the calls before it have run, and the loop goes on to the next
  call. A function call whose arguments \<^verbatim>\<open>json.loads\<close> rejects is never executed,
  wherever it stands in its batch and whichever request of the run brings it:
  \<open>chat\<close> returns \<^verbatim>\<open>Error: \<close> followed by the text of the exception raised at the
  first such call of the batch (the call's own exception when the calls before it
  decode); only calls before it have been executed, nothing more is requested, and
  no function-call output is appended.
\<close>

theorem run_tools_arguments:
  "(\<not> truthy args \<and> loads env ''{}'' = Inr []
      \<and> execute_tool (exn_str env) (files st) nm [] = (result, fs') \<longrightarrow>
      run_tools env ((cid, nm, args) # calls) acc st =
        run_tools env calls (acc @ [FunctionCallOutput cid result])
          (st\<lparr>files := fs', trace := trace st @ [ToolCall nm [] result]\<rparr>))
   \<and> (truthy args \<and> loads env (the args) = Inl e \<longrightarrow>
      run_tools env ((cid, nm, args) # calls) acc st = (Inl e, st))
   \<and> (truthy args \<and> loads env (the args) = Inl e
      \<and> create env (service st) (input st) = (Inr resp, s')
      \<and> function_calls (output_items resp) = (cid, nm, args) # calls \<longrightarrow>
      chat_loop env (Suc fuel) st =
        (Some (''Error: '' @ exn_str env e),
         st\<lparr>input := input st @ map OutputItem (output_items resp), service := s',
            trace := trace st @ [Request (input st) (Inr resp)]\<rparr>))
   \<and> (run_tools env pre acc st = (Inr acc1, st1) \<and> \<not> truthy args \<and> loads env ''{}'' = Inr []
      \<and> execute_tool (exn_str env) (files st1) nm [] = (result1, fs1) \<longrightarrow>
      run_tools env (pre @ (cid, nm, args) # post) acc st =
        run_tools env post (acc1 @ [FunctionCallOutput cid result1])
          (st1\<lparr>files := fs1, trace := trace st1 @ [ToolCall nm [] result1]\<rparr>))
   \<and> (chat env fuel0 st0 user_input = (res, st') \<and> trace st' = trace st0 @ evs
      \<and> Request inp (Inr resp') \<in> set evs
      \<and> function_calls (output_items resp') = pre @ (cid, nm, args) # post
      \<and> truthy args \<and> loads env (the args) = Inl e \<longrightarrow>
      (\<exists>e' before tevs. res = Some (''Error: '' @ exn_str env e')
         \<and> evs = before @ [Request inp (Inr resp')] @ tevs \<and> requests tevs = []
         \<and> prefix (map fst (tool_calls tevs)) (map (\<lambda>call. fst (snd call)) pre)
         \<and> input st' = inp @ map OutputItem (output_items resp')
         \<and> ((\<forall>call \<in> set pre. decodes env (snd (snd call))) \<longrightarrow>
              e' = e \<and> map fst (tool_calls tevs) = map (\<lambda>call. fst (snd call)) pre)))"
proof (intro conjI impI)
  assume a: "run_tools env pre acc st = (Inr acc1, st1) \<and> \<not> truthy args \<and> loads env ''{}'' = Inr []
      \<and> execute_tool (exn_str env) (files st1) nm [] = (result1, fs1)"
  then have "run_tools env (pre @ (cid, nm, args) # post) acc st =
      run_tools env ((cid, nm, args) # post) acc1 st1"
    by (simp add: run_tools_append)
  with a show "run_tools env (pre @ (cid, nm, args) # post) acc st =
        run_tools env post (acc1 @ [FunctionCallOutput cid result1])
          (st1\<lparr>files := fs1, trace := trace st1 @ [ToolCall nm [] result1]\<rparr>)"
    by simp
next
  assume a: "chat env fuel0 st0 user_input = (res, st') \<and> trace st' = trace st0 @ evs
      \<and> Request inp (Inr resp') \<in> set evs
      \<and> function_calls (output_items resp') = pre @ (cid, nm, args) # post
      \<and> truthy args \<and> loads env (the args) = Inl e"
  let ?st = "st0\<lparr>input := input st0 @ [UserMessage user_input]\<rparr>"
  from a have run: "chat_loop env fuel0 ?st = (res, st')" by (simp add: chat_def)
  from a have t: "trace st' = trace ?st @ evs" by simp
  from a have m: "Request inp (Inr resp') \<in> set evs"
    and f: "function_calls (output_items resp') = pre @ (cid, nm, args) # post"
    and tr: "truthy args" and l: "loads env (the args) = Inl e"
    by simp_all
  from chat_loop_malformed [OF tr l run t m f]
  show "\<exists>e' before tevs. res = Some (''Error: '' @ exn_str env e')
         \<and> evs = before @ [Request inp (Inr resp')] @ tevs \<and> requests tevs = []
         \<and> prefix (map fst (tool_calls tevs)) (map (\<lambda>call. fst (snd call)) pre)
         \<and> input st' = inp @ map OutputItem (output_items resp')
         \<and> ((\<forall>call \<in> set pre. decodes env (snd (snd call))) \<longrightarrow>
              e' = e \<and> map fst (tool_calls tevs) = map (\<lambda>call. fst (snd call)) pre)" .
qed (simp_all add: Let_def)

section \<open>The loop on the example environment\<close>

lemma loads_flat_empty: "loads_flat ''{}'' = Inr []"
  by (simp add: loads_flat_def skip_ws_def)

lemma loads_flat_null_path: "loads_flat ''{\"path\": null}'' = Inr [(''path'', None)]"
  by (simp add: loads_flat_def skip_ws_def scan_value_def)

lemma loads_flat_bad:
  "loads_flat ''bad json'' = Inl (JSONDecodeError ''Expecting value: line 1 column 1 (char 0)'')"
  by (simp add: loads_flat_def)

lemma execute_list_null:
  "execute_tool demo_str fs_ab ''list_files'' [(''path'', None)] =
     (''Contents of .:'' @ LF # ''[FILE] a.txt'' @ LF # ''[DIR]  b/'', fs_ab)"
  by (simp add: execute_tool_def subscript_def fs_ab_listing)



lemma demo_run_bad:
  "chat demo_env (Suc (Suc 0)) (agent0 [Inr resp_bad, Inr resp_text]) ''hello'' =
     (Some ''Error: Expecting value: line 1 column 1 (char 0)'',
      \<lparr>input = [UserMessage ''hello'',
                OutputItem (FunctionCall ''c1'' ''list_files'' (Some ''bad json''))],
       files = fs_ab, service = [Inr resp_text],
       trace = [Request [UserMessage ''hello''] (Inr resp_bad)]\<rparr>)"
  by (simp add: chat_def demo_env_def agent0_def scripted_def resp_bad_def loads_flat_bad)

lemma demo_run_two:
  "chat demo_env (Suc (Suc 0)) (agent0 [Inr resp_two, Inr resp_text]) ''hello'' =
     (Some ''Error: Expecting value: line 1 column 1 (char 0)'', demo_final_two)"
  by (simp add: chat_def demo_env_def agent0_def scripted_def resp_two_def
      loads_flat_null_path loads_flat_bad execute_list_null demo_final_two_def)


theorem chat_no_tool_calls_witness:
  "create demo_env (service (agent0 [Inr resp_text]))
      (input (agent0 [Inr resp_text]) @ [UserMessage ''hello'']) = (Inr resp_text, [])
   \<and> (\<forall>cid nm args. FunctionCall cid nm args \<notin> set (output_items resp_text))
   \<and> fst (chat demo_env (Suc 0) (agent0 [Inr resp_text]) ''hello'') = Some ''hi there''
   \<and> requests (trace (snd (chat demo_env (Suc 0) (agent0 [Inr resp_text]) ''hello''))) =
       [[UserMessage ''hello'']]
   \<and> tool_calls (trace (snd (chat demo_env (Suc 0) (agent0 [Inr resp_text]) ''hello''))) = []"
proof -
  have h1: "create demo_env (service (agent0 [Inr resp_text]))
      (input (agent0 [Inr resp_text]) @ [UserMessage ''hello'']) = (Inr resp_text, [])"
    by (simp add: demo_env_def agent0_def scripted_def)
  have h2: "\<forall>cid nm args. FunctionCall cid nm args \<notin> set (output_items resp_text)"
    by (simp add: resp_text_def)
  from chat_no_tool_calls [OF h1 h2, of 0] obtain st' evs where
    "chat demo_env (Suc 0) (agent0 [Inr resp_text]) ''hello'' =
       (Some (case output_text resp_text of None \<Rightarrow> [] | Some t \<Rightarrow> t), st')"
    and "trace st' = trace (agent0 [Inr resp_text]) @ evs"
    and "evs = [Request (input (agent0 [Inr resp_text]) @ [UserMessage ''hello'']) (Inr resp_text)]"
    by blast
  with h1 h2 show ?thesis
    by (simp add: agent0_def resp_text_def)
qed



theorem run_tools_arguments_witness:
  "\<not> truthy None \<and> loads demo_env ''{}'' = Inr []
   \<and> execute_tool (exn_str demo_env) (files (agent0 [])) ''list_files'' [] =
       (''Error executing list_files: '' @ CHR 0x27 # ''path'' @ [CHR 0x27], fs_ab)
   \<and> run_tools demo_env [(''c1'', ''list_files'', None)] [] (agent0 []) =
       (Inr [FunctionCallOutput ''c1'' (''Error executing list_files: '' @ CHR 0x27 # ''path'' @ [CHR 0x27])],
        (agent0 [])\<lparr>files := fs_ab,
          trace := [ToolCall ''list_files'' []
            (''Error executing list_files: '' @ CHR 0x27 # ''path'' @ [CHR 0x27])]\<rparr>)
   \<and> truthy (Some ''bad json'')
   \<and> loads demo_env (the (Some ''bad json'')) =
       Inl (JSONDecodeError ''Expecting value: line 1 column 1 (char 0)'')
   \<and> run_tools demo_env [(''c1'', ''list_files'', Some ''bad json'')] [] (agent0 []) =
       (Inl (JSONDecodeError ''Expecting value: line 1 column 1 (char 0)''), agent0 [])
   \<and> create demo_env (service (agent0 [Inr resp_bad])) (input (agent0 [Inr resp_bad])) =
       (Inr resp_bad, [])
   \<and> function_calls (output_items resp_bad) = [(''c1'', ''list_files'', Some ''bad json'')]
   \<and> chat_loop demo_env (Suc 0) (agent0 [Inr resp_bad]) =
       (Some ''Error: Expecting value: line 1 column 1 (char 0)'',
        (agent0 [Inr resp_bad])\<lparr>
          input := [OutputItem (FunctionCall ''c1'' ''list_files'' (Some ''bad json''))],
          service := [],
          trace := [Request [] (Inr resp_bad)]\<rparr>)
   \<and> run_tools demo_env [(''c1'', ''list_files'', Some ''{\"path\": null}'')] [] (agent0 []) =
       (Inr [FunctionCallOutput ''c1'' (''Contents of .:'' @ LF # ''[FILE] a.txt'' @ LF # ''[DIR]  b/'')],
        (agent0 [])\<lparr>files := fs_ab,
          trace := [ToolCall ''list_files'' [(''path'', None)]
            (''Contents of .:'' @ LF # ''[FILE] a.txt'' @ LF # ''[DIR]  b/'')]\<rparr>)
   \<and> run_tools demo_env
        ([(''c1'', ''list_files'', Some ''{\"path\": null}'')] @ [(''c2'', ''read_file'', None)])
        [] (agent0 []) =
       (Inr [FunctionCallOutput ''c1'' (''Contents of .:'' @ LF # ''[FILE] a.txt'' @ LF # ''[DIR]  b/''),
             FunctionCallOutput ''c2'' (''Error executing read_file: '' @ CHR 0x27 # ''path'' @ [CHR 0x27])],
        (agent0 [])\<lparr>files := fs_ab,
          trace := [ToolCall ''list_files'' [(''path'', None)]
                      (''Contents of .:'' @ LF # ''[FILE] a.txt'' @ LF # ''[DIR]  b/''),
                    ToolCall ''read_file'' []
                      (''Error executing read_file: '' @ CHR 0x27 # ''path'' @ [CHR 0x27])]\<rparr>)
   \<and> chat demo_env (Suc (Suc 0)) (agent0 [Inr resp_two, Inr resp_text]) ''hello'' =
       (Some ''Error: Expecting value: line 1 column 1 (char 0)'', demo_final_two)
   \<and> trace demo_final_two = trace (agent0 [Inr resp_two, Inr resp_text]) @ trace demo_final_two
   \<and> Request [UserMessage ''hello''] (Inr resp_two) \<in> set (trace demo_final_two)
   \<and> function_calls (output_items resp_two) =
       [(''c1'', ''list_files'', Some ''{\"path\": null}'')] @ (''c2'', ''read_file'', Some ''bad json'') # []
   \<and> decodes demo_env (Some ''{\"path\": null}'')
   \<and> (\<exists>e' before tevs.
        Some ''Error: Expecting value: line 1 column 1 (char 0)'' = Some (''Error: '' @ exn_str demo_env e')
        \<and> trace demo_final_two = before @ [Request [UserMessage ''hello''] (Inr resp_two)] @ tevs
        \<and> requests tevs = []
        \<and> e' = JSONDecodeError ''Expecting value: line 1 column 1 (char 0)''
        \<and> map fst (tool_calls tevs) = [''list_files''])
   \<and> input demo_final_two = [UserMessage ''hello''] @ map OutputItem (output_items resp_two)"
proof -
  have nt: "\<not> truthy None" by simp
  have tb: "truthy (Some ''bad json'')" by simp
  have ex0: "execute_tool (exn_str demo_env) (files (agent0 [])) ''list_files'' [] =
       (''Error executing list_files: '' @ CHR 0x27 # ''path'' @ [CHR 0x27], fs_ab)"
    by (simp add: demo_env_def agent0_def execute_tool_def subscript_def)
  have cr: "create demo_env (service (agent0 [Inr resp_bad])) (input (agent0 [Inr resp_bad])) =
       (Inr resp_bad, [])"
    by (simp add: demo_env_def agent0_def scripted_def)
  have fc: "function_calls (output_items resp_bad) = [(''c1'', ''list_files'', Some ''bad json'')]"
    by (simp add: resp_bad_def)

  have l0: "loads demo_env ''{}'' = Inr []"
    by (simp add: demo_env_def loads_flat_empty)
  have lb: "loads demo_env (the (Some ''bad json'')) =
       Inl (JSONDecodeError ''Expecting value: line 1 column 1 (char 0)'')"
    by (simp add: demo_env_def loads_flat_bad)
  have r0: "run_tools demo_env [(''c1'', ''list_files'', Some ''{\"path\": null}'')] [] (agent0 []) =
       (Inr [FunctionCallOutput ''c1'' (''Contents of .:'' @ LF # ''[FILE] a.txt'' @ LF # ''[DIR]  b/'')],
        (agent0 [])\<lparr>files := fs_ab,
          trace := [ToolCall ''list_files'' [(''path'', None)]
            (''Contents of .:'' @ LF # ''[FILE] a.txt'' @ LF # ''[DIR]  b/'')]\<rparr>)"
    by (simp add: demo_env_def agent0_def loads_flat_null_path execute_list_null)
  have ex: "execute_tool (exn_str demo_env)
       (files ((agent0 [])\<lparr>files := fs_ab,
          trace := [ToolCall ''list_files'' [(''path'', None)]
            (''Contents of .:'' @ LF # ''[FILE] a.txt'' @ LF # ''[DIR]  b/'')]\<rparr>))
       ''read_file'' [] =
       (''Error executing read_file: '' @ CHR 0x27 # ''path'' @ [CHR 0x27], fs_ab)"
    by (simp add: demo_env_def execute_tool_def subscript_def)
  have t: "trace demo_final_two = trace (agent0 [Inr resp_two, Inr resp_text]) @ trace demo_final_two"
    by (simp add: agent0_def)
  have m: "Request [UserMessage ''hello''] (Inr resp_two) \<in> set (trace demo_final_two)"
    by (simp add: demo_final_two_def)
  have f: "function_calls (output_items resp_two) =
       [(''c1'', ''list_files'', Some ''{\"path\": null}'')] @ (''c2'', ''read_file'', Some ''bad json'') # []"
    by (simp add: resp_two_def)
  have d: "decodes demo_env (Some ''{\"path\": null}'')"
    by (simp add: decodes_def demo_env_def loads_flat_null_path)
  have i: "input demo_final_two = [UserMessage ''hello''] @ map OutputItem (output_items resp_two)"
    by (simp add: demo_final_two_def resp_two_def)
  have h4: "run_tools demo_env [(''c1'', ''list_files'', Some ''{\"path\": null}'')] [] (agent0 []) =
       (Inr [FunctionCallOutput ''c1'' (''Contents of .:'' @ LF # ''[FILE] a.txt'' @ LF # ''[DIR]  b/'')],
        (agent0 [])\<lparr>files := fs_ab,
          trace := [ToolCall ''list_files'' [(''path'', None)]
            (''Contents of .:'' @ LF # ''[FILE] a.txt'' @ LF # ''[DIR]  b/'')]\<rparr>)
      \<and> \<not> truthy None \<and> loads demo_env ''{}'' = Inr []
      \<and> execute_tool (exn_str demo_env)
       (files ((agent0 [])\<lparr>files := fs_ab,
          trace := [ToolCall ''list_files'' [(''path'', None)]
            (''Contents of .:'' @ LF # ''[FILE] a.txt'' @ LF # ''[DIR]  b/'')]\<rparr>))
       ''read_file'' [] =
       (''Error executing read_file: '' @ CHR 0x27 # ''path'' @ [CHR 0x27], fs_ab)"
    using r0 l0 ex by simp
  note th4 = run_tools_arguments [where env = demo_env
      and pre = "[(''c1'', ''list_files'', Some ''{\"path\": null}'')]"
      and acc = "[]" and st = "agent0 []" and args = None and nm = "''read_file''"
      and cid = "''c2''" and post = "[]",
      THEN conjunct2, THEN conjunct2, THEN conjunct2, THEN conjunct1, THEN mp, OF h4]
  have r1: "run_tools demo_env
        ([(''c1'', ''list_files'', Some ''{\"path\": null}'')] @ [(''c2'', ''read_file'', None)])
        [] (agent0 []) =
       (Inr [FunctionCallOutput ''c1'' (''Contents of .:'' @ LF # ''[FILE] a.txt'' @ LF # ''[DIR]  b/''),
             FunctionCallOutput ''c2'' (''Error executing read_file: '' @ CHR 0x27 # ''path'' @ [CHR 0x27])],
        (agent0 [])\<lparr>files := fs_ab,
          trace := [ToolCall ''list_files'' [(''path'', None)]
                      (''Contents of .:'' @ LF # ''[FILE] a.txt'' @ LF # ''[DIR]  b/''),
                    ToolCall ''read_file'' []
                      (''Error executing read_file: '' @ CHR 0x27 # ''path'' @ [CHR 0x27])]\<rparr>)"
    unfolding th4 by (simp add: agent0_def)
  have h5: "chat demo_env (Suc (Suc 0)) (agent0 [Inr resp_two, Inr resp_text]) ''hello'' =
       (Some ''Error: Expecting value: line 1 column 1 (char 0)'', demo_final_two)
      \<and> trace demo_final_two = trace (agent0 [Inr resp_two, Inr resp_text]) @ trace demo_final_two
      \<and> Request [UserMessage ''hello''] (Inr resp_two) \<in> set (trace demo_final_two)
      \<and> function_calls (output_items resp_two) =
          [(''c1'', ''list_files'', Some ''{\"path\": null}'')] @ (''c2'', ''read_file'', Some ''bad json'') # []
      \<and> truthy (Some ''bad json'')
      \<and> loads demo_env (the (Some ''bad json'')) =
          Inl (JSONDecodeError ''Expecting value: line 1 column 1 (char 0)'')"
    using demo_run_two t m f lb by simp
  note th5 = run_tools_arguments [where env = demo_env and args = "Some ''bad json''"
      and pre = "[(''c1'', ''list_files'', Some ''{\"path\": null}'')]"
      and cid = "''c2''" and nm = "''read_file''" and post = "[]",
      THEN conjunct2, THEN conjunct2, THEN conjunct2, THEN conjunct2, THEN mp, OF h5]
  from th5 obtain e' before tevs where
    c1: "Some ''Error: Expecting value: line 1 column 1 (char 0)'' = Some (''Error: '' @ exn_str demo_env e')"
    and c2: "trace demo_final_two = before @ [Request [UserMessage ''hello''] (Inr resp_two)] @ tevs"
    and c3: "requests tevs = []"
    and c4: "(\<forall>call \<in> set [(''c1'', ''list_files'', Some ''{\"path\": null}'')].
               decodes demo_env (snd (snd call))) \<longrightarrow>
             e' = JSONDecodeError ''Expecting value: line 1 column 1 (char 0)''
             \<and> map fst (tool_calls tevs) =
                 map (\<lambda>call. fst (snd call)) [(''c1'', ''list_files'', Some ''{\"path\": null}'')]"
    by blast
  from c4 d have c5: "e' = JSONDecodeError ''Expecting value: line 1 column 1 (char 0)''"
    and c6: "map fst (tool_calls tevs) = [''list_files'']"
    by simp_all
  have ex5: "\<exists>e' before tevs.
        Some ''Error: Expecting value: line 1 column 1 (char 0)'' = Some (''Error: '' @ exn_str demo_env e')
        \<and> trace demo_final_two = before @ [Request [UserMessage ''hello''] (Inr resp_two)] @ tevs
        \<and> requests tevs = []
        \<and> e' = JSONDecodeError ''Expecting value: line 1 column 1 (char 0)''
        \<and> map fst (tool_calls tevs) = [''list_files'']"
    apply (rule exI [of _ e'])
    apply (rule exI [of _ before])
    apply (rule exI [of _ tevs])
    apply (intro conjI c1 c2 c3 c5 c6)
    done
  have h1: "\<not> truthy None \<and> loads demo_env ''{}'' = Inr []
      \<and> execute_tool (exn_str demo_env) (files (agent0 [])) ''list_files'' [] =
          (''Error executing list_files: '' @ CHR 0x27 # ''path'' @ [CHR 0x27], fs_ab)"
    using l0 ex0 by simp
  note th1 = run_tools_arguments [where env = demo_env and args = None and st = "agent0 []"
      and nm = "''list_files''" and cid = "''c1''" and calls = "[]" and acc = "[]",
      THEN conjunct1, THEN mp, OF h1]
  have o1: "run_tools demo_env [(''c1'', ''list_files'', None)] [] (agent0 []) =
       (Inr [FunctionCallOutput ''c1'' (''Error executing list_files: '' @ CHR 0x27 # ''path'' @ [CHR 0x27])],
        (agent0 [])\<lparr>files := fs_ab,
          trace := [ToolCall ''list_files'' []
            (''Error executing list_files: '' @ CHR 0x27 # ''path'' @ [CHR 0x27])]\<rparr>)"
    unfolding th1 by (simp add: agent0_def)
  have h2: "truthy (Some ''bad json'') \<and> loads demo_env (the (Some ''bad json'')) =
       Inl (JSONDecodeError ''Expecting value: line 1 column 1 (char 0)'')"
    using lb by simp
  note th2 = run_tools_arguments [where env = demo_env and args = "Some ''bad json''"
      and st = "agent0 []" and nm = "''list_files''" and cid = "''c1''" and calls = "[]"
      and acc = "[]",
      THEN conjunct2, THEN conjunct1, THEN mp, OF h2]
  have o2: "run_tools demo_env [(''c1'', ''list_files'', Some ''bad json'')] [] (agent0 []) =
       (Inl (JSONDecodeError ''Expecting value: line 1 column 1 (char 0)''), agent0 [])"
    by (rule th2)
  have h3: "truthy (Some ''bad json'') \<and> loads demo_env (the (Some ''bad json'')) =
       Inl (JSONDecodeError ''Expecting value: line 1 column 1 (char 0)'')
      \<and> create demo_env (service (agent0 [Inr resp_bad])) (input (agent0 [Inr resp_bad])) =
          (Inr resp_bad, [])
      \<and> function_calls (output_items resp_bad) = (''c1'', ''list_files'', Some ''bad json'') # []"
    using lb cr fc by simp
  note th3 = run_tools_arguments [where env = demo_env and args = "Some ''bad json''"
      and st = "agent0 [Inr resp_bad]" and nm = "''list_files''" and cid = "''c1''"
      and calls = "[]" and fuel = 0,
      THEN conjunct2, THEN conjunct2, THEN conjunct1, THEN mp, OF h3]
  have o3: "chat_loop demo_env (Suc 0) (agent0 [Inr resp_bad]) =
       (Some ''Error: Expecting value: line 1 column 1 (char 0)'',
        (agent0 [Inr resp_bad])\<lparr>
          input := [OutputItem (FunctionCall ''c1'' ''list_files'' (Some ''bad json''))],
          service := [],
          trace := [Request [] (Inr resp_bad)]\<rparr>)"
    unfolding th3 by (simp add: agent0_def resp_bad_def demo_env_def)
  show ?thesis
    by (intro conjI nt l0 ex0 o1 tb lb o2 cr fc o3 r0 r1 demo_run_two t m f d ex5 i)
qed

text \<open>
  Claim C3 as stated fails for malformed arguments: a response whose one function
  call has the arguments \<^verbatim>\<open>bad json\<close> makes \<open>chat\<close> return the error text of
  \<^verbatim>\<open>json.loads\<close>; no tool is executed and no function-call output is appended.
\<close>

theorem malformed_arguments_counterexample:
  "loads demo_env ''bad json'' = Inl (JSONDecodeError ''Expecting value: line 1 column 1 (char 0)'')
   \<and> fst (chat demo_env (Suc (Suc 0)) (agent0 [Inr resp_bad, Inr resp_text]) ''hello'') =
       Some ''Error: Expecting value: line 1 column 1 (char 0)''
   \<and> tool_calls (trace (snd (chat demo_env (Suc (Suc 0)) (agent0 [Inr resp_bad, Inr resp_text])
       ''hello''))) = []
   \<and> input (snd (chat demo_env (Suc (Suc 0)) (agent0 [Inr resp_bad, Inr resp_text]) ''hello'')) =
       [UserMessage ''hello'', OutputItem (FunctionCall ''c1'' ''list_files'' (Some ''bad json''))]"
proof -
  have "loads demo_env ''bad json'' =
      Inl (JSONDecodeError ''Expecting value: line 1 column 1 (char 0)'')"
    by (simp add: demo_env_def loads_flat_bad)
  then show ?thesis by (simp add: demo_run_bad)
qed

end
